theory Spec2Isabelle
  imports Main "HOL-Library.Sublist"
begin

section \<open>The Confluence connector (backend/onyx/connectors/confluence/connector.py)\<close>

text \<open>
  A shallow embedding of \<^verbatim>\<open>ConfluenceConnector\<close>. Python strings are modelled by
  their UTF-8 byte sequences (\<open>string\<close>), Python integers by \<open>int\<close>, exceptions by values
  of the type \<open>error\<close> returned on the left of a sum, and generators by the list of the
  values they yield together with the exception that ended them, if any.
  Second-precision epochs and timezone offsets are whole numbers of seconds;
  floating-point fractions of a second are outside the model.
\<close>

subsection \<open>Python values and exceptions\<close>

text \<open>The decoded JSON records the Confluence client hands to the connector.\<close>

datatype json =
    JNone
  | JBool bool
  | JInt int
  | JStr string
  | JList "json list"
  | JDict "(string \<times> json) list"

text \<open>
  \<open>requests.Response\<close>: only the status code matters here. The library defines the truth
  value of a response as its \<open>ok\<close> property, which is false exactly for the client and
  server error codes 400 to 599 (\<open>raise_for_status\<close> raises for those).
\<close>

record response =
  status_code :: int

definition response_ok :: "response \<Rightarrow> bool" where
  "response_ok r = (\<not> (400 \<le> status_code r \<and> status_code r < 600))"

text \<open>
  The exception classes that occur. Messages are kept where the source gives a literal;
  the message of \<open>UnexpectedError\<close> embeds the text of the caught exception and is not
  modelled. \<open>HTTPError\<close> carries its optional response.
\<close>

datatype error =
    ConnectorMissingCredentialError string
  | NotImplementedError string
  | CredentialExpiredError string
  | InsufficientPermissionsError string
  | UnexpectedError
  | ConnectorValidationError string
  | RuntimeError string
  | HTTPError "response option"
  | KeyError string
  | TypeError
  | AttributeError
  | ValueError
  | OverflowError
  | OtherError string

abbreviation apos :: char where
  "apos \<equiv> CHR 0x27"

text \<open>Python truthiness of a decoded JSON value.\<close>

fun truthy :: "json \<Rightarrow> bool" where
  "truthy JNone = False"
| "truthy (JBool b) = b"
| "truthy (JInt i) = (i \<noteq> 0)"
| "truthy (JStr s) = (s \<noteq> [])"
| "truthy (JList xs) = (xs \<noteq> [])"
| "truthy (JDict kvs) = (kvs \<noteq> [])"

text \<open>\<open>obj[key]\<close> with a string key.\<close>

fun getitem :: "json \<Rightarrow> string \<Rightarrow> error + json" where
  "getitem (JDict kvs) k = (case map_of kvs k of None \<Rightarrow> Inl (KeyError k) | Some v \<Rightarrow> Inr v)"
| "getitem _ k = Inl TypeError"

text \<open>\<open>obj.get(key, default)\<close>; only dictionaries have the method.\<close>

fun get_default :: "json \<Rightarrow> string \<Rightarrow> json \<Rightarrow> error + json" where
  "get_default (JDict kvs) k d = (case map_of kvs k of None \<Rightarrow> Inr d | Some v \<Rightarrow> Inr v)"
| "get_default _ k d = Inl AttributeError"

text \<open>\<open>x or y\<close> on values.\<close>

definition py_or :: "json \<Rightarrow> json \<Rightarrow> json" where
  "py_or x y = (if truthy x then x else y)"

text \<open>\<open>sep.join(xs)\<close> and \<open>s.rstrip(chars)\<close>.\<close>

fun join :: "string \<Rightarrow> string list \<Rightarrow> string" where
  "join sep [] = []"
| "join sep [x] = x"
| "join sep (x # y # ys) = x @ sep @ join sep (y # ys)"

definition rstrip :: "string \<Rightarrow> string \<Rightarrow> string" where
  "rstrip s chars = rev (dropWhile (\<lambda>c. c \<in> set chars) (rev s))"

subsection \<open>urllib.parse.quote\<close>

text \<open>
  \<open>quote(s)\<close> with the default \<open>safe='/'\<close>: every byte of the UTF-8 encoding that is not
  an ASCII letter, a digit or one of \<open>_.-~/\<close> becomes \<open>%XX\<close> in upper-case hexadecimal.
\<close>

definition always_safe :: string where
  "always_safe = ''ABCDEFGHIJKLMNOPQRSTUVWXYZabcdefghijklmnopqrstuvwxyz0123456789_.-~''"

definition hex_digit :: "nat \<Rightarrow> char" where
  "hex_digit n = ''0123456789ABCDEF'' ! (n mod 16)"

definition quote_byte :: "char \<Rightarrow> string" where
  "quote_byte c =
     (if c \<in> set always_safe \<or> c = CHR ''/'' then [c]
      else [CHR ''%'', hex_digit (of_char c div 16), hex_digit (of_char c mod 16)])"

definition quote :: "string \<Rightarrow> string" where
  "quote s = concat (map quote_byte s)"

subsection \<open>datetime.fromtimestamp(t, tz).strftime("%Y-%m-%d %H:%M")\<close>

text \<open>Decimal digits of a natural number, and zero padding to a width.\<close>

fun str_nat :: "nat \<Rightarrow> string" where
  "str_nat n = (if n < 10 then [''0123456789'' ! n]
                else str_nat (n div 10) @ [''0123456789'' ! (n mod 10)])"

definition zfill :: "nat \<Rightarrow> string \<Rightarrow> string" where
  "zfill w s = replicate (w - length s) CHR ''0'' @ s"

text \<open>
  The proleptic Gregorian date (year, month, day) of a day number counted from
  1970-01-01, as \<open>datetime\<close> computes it.
\<close>

definition civil_from_days :: "int \<Rightarrow> int \<times> int \<times> int" where
  "civil_from_days z0 =
     (let z = z0 + 719468;
          era = z div 146097;
          doe = z mod 146097;
          yoe = (doe - doe div 1460 + doe div 36524 - doe div 146096) div 365;
          doy = doe - (365 * yoe + yoe div 4 - yoe div 100);
          mp = (5 * doy + 2) div 153;
          d = doy - (153 * mp + 2) div 5 + 1;
          m = (if mp < 10 then mp + 3 else mp - 9);
          y = yoe + era * 400 + (if m \<le> 2 then 1 else 0)
      in (y, m, d))"

definition year_of :: "int \<Rightarrow> int" where
  "year_of secs = fst (civil_from_days (secs div 86400))"

text \<open>
  \<open>timezone(offset=timedelta(hours=h))\<close>, with the offset given in seconds: the
  constructor raises \<open>ValueError\<close> unless the offset is strictly between -24 and 24
  hours.
\<close>

definition mk_timezone :: "int \<Rightarrow> error + int" where
  "mk_timezone offset_seconds =
     (if - 86400 < offset_seconds \<and> offset_seconds < 86400 then Inr offset_seconds
      else Inl ValueError)"

text \<open>
  \<open>datetime.fromtimestamp(t, tz=tz).strftime("%Y-%m-%d %H:%M")\<close>. A \<open>datetime\<close> only
  holds the years 1 to 9999: the UTC time out of that range raises \<open>ValueError\<close>, the
  shifted local time out of it \<open>OverflowError\<close>. The year is written with four digits.
\<close>

definition strftime_minute :: "int \<Rightarrow> int \<Rightarrow> error + string" where
  "strftime_minute t tz =
     (if year_of t < 1 \<or> 9999 < year_of t then Inl ValueError
      else if year_of (t + tz) < 1 \<or> 9999 < year_of (t + tz) then Inl OverflowError
      else
        let local = t + tz;
            (y, m, d) = civil_from_days (local div 86400);
            sod = local mod 86400
        in Inr (zfill 4 (str_nat (nat y)) @ ''-'' @ zfill 2 (str_nat (nat m)) @ ''-''
                @ zfill 2 (str_nat (nat d)) @ '' '' @ zfill 2 (str_nat (nat (sod div 3600)))
                @ '':'' @ zfill 2 (str_nat (nat (sod mod 3600 div 60)))))"

subsection \<open>What the connector calls but does not define\<close>

text \<open>
  The paginated query client (\<open>OnyxConfluence\<close>). A paginated retrieval is a lazy
  sequence: the records it produces, then possibly the exception that ends it. The
  arguments are the query, the expansion list and the page-size limit.
\<close>

record client =
  paginated_cql_retrieval :: "string \<Rightarrow> string option \<Rightarrow> int option \<Rightarrow> json list \<times> error option"
  cql_paginate_all_expansions :: "string \<Rightarrow> string option \<Rightarrow> int option \<Rightarrow> json list \<times> error option"
  get_all_spaces :: "int \<Rightarrow> error + json"

text \<open>
  The helpers imported from \<open>onyx.connectors.confluence\<close> and the Python runtime, taken
  as parameters: \<open>list_of_set\<close> is \<open>list(set(xs))\<close>, whose order Python leaves open;
  \<open>str_other\<close> is \<open>str\<close> on a value that is not a string; \<open>OnyxConfluence\<close> is the
  client's constructor; \<open>probe_connection\<close> and \<open>initialize_connection\<close> take the
  keyword arguments \<open>(max_backoff_retries, max_backoff_seconds)\<close>. Each helper that can
  raise returns a sum.
\<close>

record 'p env =
  list_of_set :: "string list \<Rightarrow> string list"
  str_other :: "json \<Rightarrow> string"
  OnyxConfluence :: "bool \<Rightarrow> string \<Rightarrow> 'p \<Rightarrow> error + client"
  probe_connection :: "client \<Rightarrow> int \<times> int \<Rightarrow> error option"
  initialize_connection :: "client \<Rightarrow> int \<times> int \<Rightarrow> error + client"
  build_confluence_document_id :: "string \<Rightarrow> json \<Rightarrow> bool \<Rightarrow> error + string"
  extract_text_from_confluence_html :: "client \<Rightarrow> json \<Rightarrow> json list \<Rightarrow> error + string"
  attachment_to_content :: "client \<Rightarrow> json \<Rightarrow> json option \<Rightarrow> error + string option"
  datetime_from_string :: "json \<Rightarrow> error + int"
  validate_attachment_filetype :: "json \<Rightarrow> error + bool"

text \<open>The value an f-string interpolates.\<close>

definition format_value :: "'p env \<Rightarrow> json \<Rightarrow> string" where
  "format_value env v = (case v of JStr s \<Rightarrow> s | _ \<Rightarrow> str_other env v)"

subsection \<open>Module constants\<close>

definition COMMENT_EXPANSION_FIELDS :: "string list" where
  "COMMENT_EXPANSION_FIELDS = [''body.storage.value'']"

definition PAGE_EXPANSION_FIELDS :: "string list" where
  "PAGE_EXPANSION_FIELDS = [''body.storage.value'', ''version'', ''space'', ''metadata.labels'']"

definition ATTACHMENT_EXPANSION_FIELDS :: "string list" where
  "ATTACHMENT_EXPANSION_FIELDS = [''version'', ''space'', ''metadata.labels'']"

definition RESTRICTIONS_EXPANSION_FIELDS :: "string list" where
  "RESTRICTIONS_EXPANSION_FIELDS =
     [''space'', ''restrictions.read.restrictions.user'', ''restrictions.read.restrictions.group'',
      ''ancestors.restrictions.read.restrictions.user'',
      ''ancestors.restrictions.read.restrictions.group'']"

definition SLIM_DOC_BATCH_SIZE :: nat where
  "SLIM_DOC_BATCH_SIZE = 5000"

definition ATTACHMENT_EXTENSIONS_TO_FILTER_OUT :: "string list" where
  "ATTACHMENT_EXTENSIONS_TO_FILTER_OUT =
     [''png'', ''jpg'', ''jpeg'', ''gif'', ''mp4'', ''mov'', ''mp3'', ''wav'']"

definition FULL_EXTENSION_FILTER_STRING :: string where
  "FULL_EXTENSION_FILTER_STRING =
     concat (map (\<lambda>extension. '' and title!~'' @ [apos] @ ''*.'' @ extension @ [apos])
                 ATTACHMENT_EXTENSIONS_TO_FILTER_OUT)"

subsection \<open>The connector object\<close>

record 'p connector =
  batch_size :: int
  continue_on_failure :: bool
  is_cloud :: bool
  wiki_base :: string
  base_cql_page_query :: string
  cql_label_filter :: string
  timezone :: int
  credentials_provider :: "'p option"
  private_confluence_client :: "client option"

definition probe_kwargs :: "int \<times> int" where
  "probe_kwargs = (6, 10)"

definition final_kwargs :: "int \<times> int" where
  "final_kwargs = (10, 60)"

text \<open>Truth value of an optional string: \<open>None\<close> and the empty string are false.\<close>

definition str_truthy :: "string option \<Rightarrow> bool" where
  "str_truthy s = (case s of None \<Rightarrow> False | Some x \<Rightarrow> x \<noteq> [])"

text \<open>
  \<open>__init__\<close>. The only failure is the \<open>timezone\<close> constructor's; it comes after the
  queries are built, and leaves no connector.
\<close>

definition init ::
  "'p env \<Rightarrow> string \<Rightarrow> bool \<Rightarrow> string \<Rightarrow> string \<Rightarrow> bool \<Rightarrow> string option \<Rightarrow> int \<Rightarrow> bool
     \<Rightarrow> string list \<Rightarrow> int \<Rightarrow> error + 'p connector" where
  "init env wiki_base_arg is_cloud_arg space page_id index_recursively cql_query batch_size_arg
        continue_on_failure_arg labels_to_skip timezone_offset =
     (let base0 = ''type=page'';
          base =
            (if str_truthy cql_query then the cql_query
             else if page_id \<noteq> [] then
               (if index_recursively
                then base0 @ '' and (ancestor='' @ [apos] @ page_id @ [apos]
                           @ '' or id='' @ [apos] @ page_id @ [apos] @ '')''
                else base0 @ '' and id='' @ [apos] @ page_id @ [apos])
             else if space \<noteq> [] then
               (let uri_safe_space = quote space
                in base0 @ '' and space='' @ [apos] @ uri_safe_space @ [apos])
             else base0);
          label_filter =
            (if labels_to_skip \<noteq> [] then
               (let labels = list_of_set env labels_to_skip;
                    comma_separated_labels =
                      join '','' (map (\<lambda>label. [apos] @ quote label @ [apos]) labels)
                in '' and label not in ('' @ comma_separated_labels @ '')'')
             else [])
      in case mk_timezone timezone_offset of
           Inl e \<Rightarrow> Inl e
         | Inr tz \<Rightarrow>
             Inr \<lparr> batch_size = batch_size_arg,
                   continue_on_failure = continue_on_failure_arg,
                   is_cloud = is_cloud_arg,
                   wiki_base = rstrip wiki_base_arg ''/'',
                   base_cql_page_query = base,
                   cql_label_filter = label_filter,
                   timezone = tz,
                   credentials_provider = None,
                   private_confluence_client = None \<rparr>)"

text \<open>The property \<open>confluence_client\<close>.\<close>

definition confluence_client :: "'p connector \<Rightarrow> error + client" where
  "confluence_client self =
     (case private_confluence_client self of
        None \<Rightarrow> Inl (ConnectorMissingCredentialError ''Confluence'')
      | Some c \<Rightarrow> Inr c)"

text \<open>
  \<open>set_credentials_provider\<close> returns the connector as the call leaves it and the
  exception it raised, if any: the provider is stored before the client is built.
\<close>

definition set_credentials_provider ::
  "'p env \<Rightarrow> 'p connector \<Rightarrow> 'p \<Rightarrow> 'p connector \<times> error option" where
  "set_credentials_provider env self provider =
     (let self1 = self\<lparr>credentials_provider := Some provider\<rparr>
      in case OnyxConfluence env (is_cloud self1) (wiki_base self1) provider of
           Inl e \<Rightarrow> (self1, Some e)
         | Inr c \<Rightarrow>
             (case probe_connection env c probe_kwargs of
                Some e \<Rightarrow> (self1, Some e)
              | None \<Rightarrow>
                  (case initialize_connection env c final_kwargs of
                     Inl e \<Rightarrow> (self1, Some e)
                   | Inr c' \<Rightarrow> (self1\<lparr>private_confluence_client := Some c'\<rparr>, None))))"

definition load_credentials :: "'p connector \<Rightarrow> (string \<times> json) list \<Rightarrow> error + json" where
  "load_credentials self credentials =
     Inl (NotImplementedError ''Use set_credentials_provider with this connector.'')"

subsection \<open>Query construction\<close>

text \<open>Truth value of an optional epoch: \<open>None\<close> and 0 are false.\<close>

definition epoch_truthy :: "int option \<Rightarrow> bool" where
  "epoch_truthy t = (case t of None \<Rightarrow> False | Some x \<Rightarrow> x \<noteq> 0)"

definition construct_page_query ::
  "'p connector \<Rightarrow> int option \<Rightarrow> int option \<Rightarrow> error + string" where
  "construct_page_query self start end_arg =
     (let page_query = base_cql_page_query self @ cql_label_filter self
      in case (if epoch_truthy start then
                 (case strftime_minute (the start) (timezone self) of
                    Inl e \<Rightarrow> Inl e
                  | Inr formatted_start_time \<Rightarrow>
                      Inr (page_query @ '' and lastmodified >= '' @ [apos]
                             @ formatted_start_time @ [apos]))
               else Inr page_query) of
           Inl e \<Rightarrow> Inl e
         | Inr page_query1 \<Rightarrow>
             (if epoch_truthy end_arg then
                (case strftime_minute (the end_arg) (timezone self) of
                   Inl e \<Rightarrow> Inl e
                 | Inr formatted_end_time \<Rightarrow>
                     Inr (page_query1 @ '' and lastmodified <= '' @ [apos]
                            @ formatted_end_time @ [apos]))
              else Inr page_query1))"

definition construct_attachment_query :: "'p env \<Rightarrow> 'p connector \<Rightarrow> json \<Rightarrow> string" where
  "construct_attachment_query env self confluence_page_id =
     ''type=attachment and container='' @ [apos] @ format_value env confluence_page_id @ [apos]
       @ cql_label_filter self @ FULL_EXTENSION_FILTER_STRING"

subsection \<open>Settings validation\<close>

text \<open>
  \<open>validate_connector_settings\<close> returns nothing; the result is the exception raised,
  if any. The guard \<open>if e.response\<close> takes the truth value of the response object.
\<close>

definition response_truthy :: "response option \<Rightarrow> bool" where
  "response_truthy r = (case r of None \<Rightarrow> False | Some x \<Rightarrow> response_ok x)"

definition validate_connector_settings :: "'p connector \<Rightarrow> error option" where
  "validate_connector_settings self =
     (case private_confluence_client self of
        None \<Rightarrow> Some (ConnectorMissingCredentialError ''Confluence credentials not loaded.'')
      | Some c \<Rightarrow>
          (case get_all_spaces c 1 of
             Inl (HTTPError resp) \<Rightarrow>
               (let status = (if response_truthy resp then Some (status_code (the resp)) else None)
                in if status = Some 401 then
                     Some (CredentialExpiredError
                             ''Invalid or expired Confluence credentials (HTTP 401).'')
                   else if status = Some 403 then
                     Some (InsufficientPermissionsError
                             ''Insufficient permissions to access Confluence resources (HTTP 403).'')
                   else Some UnexpectedError)
           | Inl e \<Rightarrow> Some UnexpectedError
           | Inr spaces \<Rightarrow>
               (if \<not> truthy spaces then
                  Some (ConnectorValidationError ''No Confluence spaces found. Either your credentials lack permissions, or there truly are no spaces in this Confluence instance.'')
                else
                  (case get_default spaces ''results'' JNone of
                     Inl e \<Rightarrow> Some e
                   | Inr results \<Rightarrow>
                       (if \<not> truthy results then
                          Some (ConnectorValidationError ''No Confluence spaces found. Either your credentials lack permissions, or there truly are no spaces in this Confluence instance.'')
                        else None)))))"

subsection \<open>Exceptions and generators\<close>

text \<open>Sequencing of computations that may raise.\<close>

definition ebind :: "error + 'a \<Rightarrow> ('a \<Rightarrow> error + 'b) \<Rightarrow> error + 'b" where
  "ebind m f = (case m of Inl e \<Rightarrow> Inl e | Inr a \<Rightarrow> f a)"

text \<open>
  A \<open>for\<close> loop without \<open>yield\<close> over a list, and over a lazy sequence that may end
  in an exception (raised when the loop asks for the item after the last).
\<close>

fun efold :: "('a \<Rightarrow> 's \<Rightarrow> error + 's) \<Rightarrow> 'a list \<Rightarrow> 's \<Rightarrow> error + 's" where
  "efold body [] s = Inr s"
| "efold body (x # xs) s = ebind (body x s) (efold body xs)"

definition efold_src ::
  "('a \<Rightarrow> 's \<Rightarrow> error + 's) \<Rightarrow> 'a list \<times> error option \<Rightarrow> 's \<Rightarrow> error + 's" where
  "efold_src body src s =
     ebind (efold body (fst src) s)
       (\<lambda>s'. case snd src of None \<Rightarrow> Inr s' | Some e \<Rightarrow> Inl e)"

text \<open>
  A piece of a generator's body: what it yields, in order, and then either the exception
  it raises or the value it continues with.
\<close>

type_synonym ('y, 'a) gen = "'y list \<times> (error + 'a)"

definition gen_raise :: "error \<Rightarrow> ('y, 'a) gen" where
  "gen_raise e = ([], Inl e)"

definition gen_return :: "'a \<Rightarrow> ('y, 'a) gen" where
  "gen_return a = ([], Inr a)"

definition gen_bind :: "('y, 'a) gen \<Rightarrow> ('a \<Rightarrow> ('y, 'b) gen) \<Rightarrow> ('y, 'b) gen" where
  "gen_bind m f =
     (case m of
        (ys, Inl e) \<Rightarrow> (ys, Inl e)
      | (ys, Inr a) \<Rightarrow> (case f a of (zs, r) \<Rightarrow> (ys @ zs, r)))"

fun for_each :: "('a \<Rightarrow> 's \<Rightarrow> ('y, 's) gen) \<Rightarrow> 'a list \<Rightarrow> 's \<Rightarrow> ('y, 's) gen" where
  "for_each body [] s = gen_return s"
| "for_each body (x # xs) s = gen_bind (body x s) (for_each body xs)"

definition for_in ::
  "'a list \<times> error option \<Rightarrow> ('a \<Rightarrow> 's \<Rightarrow> ('y, 's) gen) \<Rightarrow> 's \<Rightarrow> ('y, 's) gen" where
  "for_in src body s =
     gen_bind (for_each body (fst src) s)
       (\<lambda>s'. case snd src of None \<Rightarrow> gen_return s' | Some e \<Rightarrow> gen_raise e)"

subsection \<open>Documents\<close>

datatype document_source = CONFLUENCE

record section_rec =
  link :: string
  section_text :: string

record basic_expert_info =
  email :: json

text \<open>
  \<open>Document\<close> and \<open>SlimDocument\<close>, as the connector fills them. The field validation
  their classes do on construction is outside this module and not modelled.
\<close>

record document =
  id_doc :: string
  sections :: "section_rec list"
  source :: document_source
  semantic_identifier :: json
  doc_updated_at :: "int option"
  primary_owners :: "basic_expert_info list option"
  metadata :: "(string \<times> json) list"

record slim_document =
  id_slim :: string
  perm_sync_data :: json

subsection \<open>Record to document conversion\<close>

definition get_comment_string_for_page_id ::
  "'p env \<Rightarrow> 'p connector \<Rightarrow> json \<Rightarrow> error + string" where
  "get_comment_string_for_page_id env self page_id =
     (let comment_cql = ''type=comment and container='' @ [apos] @ format_value env page_id @ [apos]
                          @ cql_label_filter self;
          expand = join '','' COMMENT_EXPANSION_FIELDS
      in ebind (confluence_client self) (\<lambda>c.
           efold_src
             (\<lambda>comment comment_string.
                ebind (extract_text_from_confluence_html env c comment [])
                  (\<lambda>t. Inr (comment_string @ [CHR 0x0A] @ ''Comment:'' @ [CHR 0x0A] @ t)))
             (paginated_cql_retrieval c comment_cql (Some expand) None) []))"

text \<open>A set literal needs a hashable element.\<close>

fun hashable :: "json \<Rightarrow> bool" where
  "hashable (JList xs) = False"
| "hashable (JDict kvs) = False"
| "hashable _ = True"

text \<open>
  Iterating a value: a list gives its elements, a dictionary its keys, a string its
  characters (one-byte strings here; the code only calls \<open>.get\<close> on them, which
  raises whatever the character), anything else raises.
\<close>

fun py_iter :: "json \<Rightarrow> error + json list" where
  "py_iter (JList xs) = Inr xs"
| "py_iter (JDict kvs) = Inr (map (\<lambda>kv. JStr (fst kv)) kvs)"
| "py_iter (JStr s) = Inr (map (\<lambda>c. JStr [c]) s)"
| "py_iter _ = Inl TypeError"

text \<open>\<open>[label.get("name") for label in label_dicts if label.get("name")]\<close>\<close>

fun page_labels_of :: "json list \<Rightarrow> error + json list" where
  "page_labels_of [] = Inr []"
| "page_labels_of (label # labels) =
     ebind (get_default label ''name'' JNone) (\<lambda>name.
     ebind (page_labels_of labels) (\<lambda>rest.
       Inr (if truthy name then name # rest else rest)))"

definition convert_object_to_document ::
  "'p env \<Rightarrow> 'p connector \<Rightarrow> json \<Rightarrow> json option \<Rightarrow> error + document option" where
  "convert_object_to_document env self confluence_object parent_content_id =
     ebind (getitem confluence_object ''_links'') (\<lambda>links.
     ebind (getitem links ''webui'') (\<lambda>webui.
     ebind (build_confluence_document_id env (wiki_base self) webui (is_cloud self)) (\<lambda>object_url.
     ebind (getitem confluence_object ''type'') (\<lambda>ty.
     ebind
       (if ty = JStr ''page'' then
          ebind (confluence_client self) (\<lambda>c.
          ebind (get_default confluence_object ''title'' (JStr [])) (\<lambda>title.
          ebind (if hashable title then Inr [title] else Inl TypeError) (\<lambda>fetched_titles.
          ebind (extract_text_from_confluence_html env c confluence_object fetched_titles) (\<lambda>t.
          ebind (getitem confluence_object ''id'') (\<lambda>page_id.
          ebind (get_comment_string_for_page_id env self page_id) (\<lambda>comments.
            Inr (Some (t @ comments))))))))
        else if ty = JStr ''attachment'' then
          ebind (confluence_client self) (\<lambda>c.
            attachment_to_content env c confluence_object parent_content_id)
        else Inr None)
       (\<lambda>object_text.
          case object_text of
            None \<Rightarrow> Inr None
          | Some txt \<Rightarrow>
              ebind (getitem confluence_object ''space'') (\<lambda>sp.
              ebind (getitem sp ''name'') (\<lambda>space_name.
              ebind (get_default confluence_object ''metadata'' (JDict [])) (\<lambda>md.
              ebind (get_default md ''labels'' (JDict [])) (\<lambda>lb.
              ebind (get_default lb ''results'' (JList [])) (\<lambda>label_dicts.
              ebind (py_iter label_dicts) (\<lambda>label_list.
              ebind (page_labels_of label_list) (\<lambda>page_labels.
              ebind (get_default confluence_object ''version'' (JDict [])) (\<lambda>version_dict.
              ebind (get_default version_dict ''when'' JNone) (\<lambda>when.
              ebind (if truthy when
                     then ebind (datetime_from_string env when) (\<lambda>d. Inr (Some d))
                     else Inr None) (\<lambda>last_modified.
              ebind (get_default version_dict ''by'' (JDict [])) (\<lambda>by_dict.
              ebind (get_default by_dict ''email'' JNone) (\<lambda>author_email.
              ebind (get_default confluence_object ''title'' (JStr ''Untitled Document'')) (\<lambda>title.
                Inr (Some
                  \<lparr> id_doc = object_url,
                    sections = [\<lparr> link = object_url, section_text = txt \<rparr>],
                    source = CONFLUENCE,
                    semantic_identifier = title,
                    doc_updated_at = last_modified,
                    primary_owners =
                      (if truthy author_email then Some [\<lparr> email = author_email \<rparr>] else None),
                    metadata =
                      [(''Wiki Space Name'', space_name)]
                        @ (if page_labels \<noteq> [] then [(''labels'', JList page_labels)] else [])
                  \<rparr>)))))))))))))))))))"

subsection \<open>The full document fetch\<close>

text \<open>
  The end of both loop bodies: append the document if there is one, and yield the batch
  once it has reached the batch size.
\<close>

definition append_and_emit ::
  "'p connector \<Rightarrow> document option \<Rightarrow> document list \<Rightarrow> (document list, document list) gen" where
  "append_and_emit self doc doc_batch =
     (let doc_batch1 = (case doc of None \<Rightarrow> doc_batch | Some d \<Rightarrow> doc_batch @ [d])
      in if batch_size self \<le> int (length doc_batch1) then ([doc_batch1], Inr [])
         else ([], Inr doc_batch1))"

text \<open>The body of the loop over pages; the state is the batch and the page ids.\<close>

definition page_body ::
  "'p env \<Rightarrow> 'p connector \<Rightarrow> json \<Rightarrow> document list \<times> json list
     \<Rightarrow> (document list, document list \<times> json list) gen" where
  "page_body env self page st =
     (case st of (doc_batch, confluence_page_ids) \<Rightarrow>
        (case getitem page ''id'' of
           Inl e \<Rightarrow> gen_raise e
         | Inr page_id \<Rightarrow>
             (case convert_object_to_document env self page None of
                Inl e \<Rightarrow> gen_raise e
              | Inr doc \<Rightarrow>
                  gen_bind (append_and_emit self doc doc_batch)
                    (\<lambda>b. gen_return (b, confluence_page_ids @ [page_id])))))"

definition attachment_body ::
  "'p env \<Rightarrow> 'p connector \<Rightarrow> json \<Rightarrow> json \<Rightarrow> document list
     \<Rightarrow> (document list, document list) gen" where
  "attachment_body env self confluence_page_id attachment doc_batch =
     (case convert_object_to_document env self attachment (Some confluence_page_id) of
        Inl e \<Rightarrow> gen_raise e
      | Inr doc \<Rightarrow> append_and_emit self doc doc_batch)"

text \<open>The body of the loop over the collected page ids.\<close>

definition attachments_of_page ::
  "'p env \<Rightarrow> 'p connector \<Rightarrow> json \<Rightarrow> document list \<Rightarrow> (document list, document list) gen" where
  "attachments_of_page env self confluence_page_id doc_batch =
     (let attachment_query = construct_attachment_query env self confluence_page_id
      in case confluence_client self of
           Inl e \<Rightarrow> gen_raise e
         | Inr c \<Rightarrow>
             for_in (paginated_cql_retrieval c attachment_query
                       (Some (join '','' ATTACHMENT_EXPANSION_FIELDS)) None)
                    (attachment_body env self confluence_page_id) doc_batch)"

definition fetch_document_batches ::
  "'p env \<Rightarrow> 'p connector \<Rightarrow> int option \<Rightarrow> int option \<Rightarrow> (document list, unit) gen" where
  "fetch_document_batches env self start end_arg =
     (case construct_page_query self start end_arg of
        Inl e \<Rightarrow> gen_raise e
      | Inr page_query \<Rightarrow>
          (case confluence_client self of
             Inl e \<Rightarrow> gen_raise e
           | Inr c \<Rightarrow>
               gen_bind
                 (for_in (paginated_cql_retrieval c page_query
                            (Some (join '','' PAGE_EXPANSION_FIELDS)) (Some (batch_size self)))
                         (page_body env self) ([], []))
                 (\<lambda>st. gen_bind (for_each (attachments_of_page env self) (snd st) (fst st))
                    (\<lambda>doc_batch. if doc_batch \<noteq> [] then ([doc_batch], Inr ())
                                 else gen_return ()))))"

definition load_from_state :: "'p env \<Rightarrow> 'p connector \<Rightarrow> (document list, unit) gen" where
  "load_from_state env self = fetch_document_batches env self None None"

definition poll_source ::
  "'p env \<Rightarrow> 'p connector \<Rightarrow> int option \<Rightarrow> int option \<Rightarrow> (document list, unit) gen" where
  "poll_source env self start end_arg = fetch_document_batches env self start end_arg"

subsection \<open>The slim metadata fetch\<close>

text \<open>
  What the slim fetch does that a caller can observe, in order: the batches it yields and
  its calls of the heartbeat callback. The callback is given by the answers of
  \<open>should_stop\<close>, the n-th call (from 0) answering \<open>cb n\<close>.
\<close>

datatype slim_event =
    Emit "slim_document list"
  | ShouldStop bool
  | Progress string int

text \<open>The two \<open>perm_sync_data\<close> dictionaries.\<close>

definition page_perm_sync_data :: "json \<Rightarrow> json \<Rightarrow> json \<Rightarrow> json" where
  "page_perm_sync_data page_restrictions page_space_key page_ancestors =
     JDict [(''restrictions'', py_or page_restrictions (JDict [])),
            (''space_key'', page_space_key),
            (''ancestors'', py_or page_ancestors (JList []))]"

definition attachment_perm_sync_data :: "json \<Rightarrow> json \<Rightarrow> json" where
  "attachment_perm_sync_data attachment_restrictions attachment_space_key =
     JDict [(''restrictions'', py_or attachment_restrictions (JDict [])),
            (''space_key'', attachment_space_key)]"

text \<open>The body of the loop over a page's attachments.\<close>

definition slim_attachment_body ::
  "'p env \<Rightarrow> 'p connector \<Rightarrow> json \<Rightarrow> json \<Rightarrow> json \<Rightarrow> slim_document list
     \<Rightarrow> error + slim_document list" where
  "slim_attachment_body env self page_restrictions page_space_key attachment doc_metadata_list =
     ebind (validate_attachment_filetype env attachment) (\<lambda>valid.
       if \<not> valid then Inr doc_metadata_list
       else
         ebind (get_default attachment ''restrictions'' JNone) (\<lambda>own_restrictions.
         let attachment_restrictions =
               (if \<not> truthy own_restrictions then page_restrictions else own_restrictions)
         in
         ebind (get_default attachment ''space'' (JDict [])) (\<lambda>sp.
         ebind (get_default sp ''key'' JNone) (\<lambda>own_space_key.
         let attachment_space_key =
               (if \<not> truthy own_space_key then page_space_key else own_space_key)
         in
         ebind (getitem attachment ''_links'') (\<lambda>links.
         ebind (getitem links ''webui'') (\<lambda>webui.
         ebind (build_confluence_document_id env (wiki_base self) webui (is_cloud self)) (\<lambda>i.
           Inr (doc_metadata_list
                  @ [\<lparr> id_slim = i,
                       perm_sync_data =
                         attachment_perm_sync_data attachment_restrictions
                           attachment_space_key \<rparr>]))))))))"

text \<open>One page: its own entry, then its attachments'.\<close>

definition slim_collect_page ::
  "'p env \<Rightarrow> 'p connector \<Rightarrow> json \<Rightarrow> slim_document list \<Rightarrow> error + slim_document list" where
  "slim_collect_page env self page doc_metadata_list =
     ebind (get_default page ''restrictions'' JNone) (\<lambda>page_restrictions.
     ebind (get_default page ''space'' (JDict [])) (\<lambda>sp.
     ebind (get_default sp ''key'' JNone) (\<lambda>page_space_key.
     ebind (get_default page ''ancestors'' (JList [])) (\<lambda>page_ancestors.
     ebind (getitem page ''_links'') (\<lambda>links.
     ebind (getitem links ''webui'') (\<lambda>webui.
     ebind (build_confluence_document_id env (wiki_base self) webui (is_cloud self)) (\<lambda>i.
     let doc_metadata_list1 =
           doc_metadata_list
             @ [\<lparr> id_slim = i,
                  perm_sync_data =
                    page_perm_sync_data page_restrictions page_space_key page_ancestors \<rparr>]
     in
     ebind (getitem page ''id'') (\<lambda>page_id.
     let attachment_query = construct_attachment_query env self page_id
     in
     ebind (confluence_client self) (\<lambda>c.
       efold_src (slim_attachment_body env self page_restrictions page_space_key)
         (cql_paginate_all_expansions c attachment_query
            (Some (join '','' RESTRICTIONS_EXPANSION_FIELDS)) (Some (int SLIM_DOC_BATCH_SIZE)))
         doc_metadata_list1)))))))))"

text \<open>
  The body of the loop over pages; the state is the accumulated list and the number of
  \<open>should_stop\<close> calls made so far.
\<close>

definition slim_page_body ::
  "'p env \<Rightarrow> 'p connector \<Rightarrow> (nat \<Rightarrow> bool) option \<Rightarrow> json \<Rightarrow> slim_document list \<times> nat
     \<Rightarrow> (slim_event, slim_document list \<times> nat) gen" where
  "slim_page_body env self callback page st =
     (case st of (doc_metadata_list, calls) \<Rightarrow>
        (case slim_collect_page env self page doc_metadata_list of
           Inl e \<Rightarrow> gen_raise e
         | Inr doc_metadata_list1 \<Rightarrow>
             (if SLIM_DOC_BATCH_SIZE < length doc_metadata_list1 then
                (let batch = take SLIM_DOC_BATCH_SIZE doc_metadata_list1;
                     rest = drop SLIM_DOC_BATCH_SIZE doc_metadata_list1
                 in case callback of
                      None \<Rightarrow> ([Emit batch], Inr (rest, calls))
                    | Some cb \<Rightarrow>
                        (if cb calls then
                           ([Emit batch, ShouldStop True],
                            Inl (RuntimeError ''retrieve_all_slim_documents: Stop signal detected''))
                         else
                           ([Emit batch, ShouldStop False,
                             Progress ''retrieve_all_slim_documents'' 1],
                            Inr (rest, calls + 1))))
              else gen_return (doc_metadata_list1, calls))))"

definition retrieve_all_slim_documents ::
  "'p env \<Rightarrow> 'p connector \<Rightarrow> int option \<Rightarrow> int option \<Rightarrow> (nat \<Rightarrow> bool) option
     \<Rightarrow> (slim_event, unit) gen" where
  "retrieve_all_slim_documents env self start end_arg callback =
     (let restrictions_expand = join '','' RESTRICTIONS_EXPANSION_FIELDS;
          page_query = base_cql_page_query self @ cql_label_filter self
      in case confluence_client self of
           Inl e \<Rightarrow> gen_raise e
         | Inr c \<Rightarrow>
             gen_bind
               (for_in (cql_paginate_all_expansions c page_query (Some restrictions_expand)
                          (Some (int SLIM_DOC_BATCH_SIZE)))
                       (slim_page_body env self callback) ([], 0))
               (\<lambda>st. ([Emit (fst st)], Inr ())))"

text \<open>The batches among the events.\<close>

fun emitted :: "slim_event list \<Rightarrow> slim_document list list" where
  "emitted [] = []"
| "emitted (Emit b # evs) = b # emitted evs"
| "emitted (_ # evs) = emitted evs"

subsection \<open>The records and documents a run is about\<close>

text \<open>
  The records the client returns for the page query of a run and for the attachment
  query of a page id, in pagination order, and the documents the converter makes of a
  list of records (a record that gives no document, or on which the converter raises,
  contributes none). These name what the statements about the fetch speak of; the fetch
  itself does not use them.
\<close>

definition page_records :: "'p connector \<Rightarrow> int option \<Rightarrow> int option \<Rightarrow> json list" where
  "page_records self start end_arg =
     (case construct_page_query self start end_arg of
        Inl e \<Rightarrow> []
      | Inr page_query \<Rightarrow>
          (case confluence_client self of
             Inl e \<Rightarrow> []
           | Inr c \<Rightarrow> fst (paginated_cql_retrieval c page_query
                              (Some (join '','' PAGE_EXPANSION_FIELDS)) (Some (batch_size self)))))"

definition attachment_records :: "'p env \<Rightarrow> 'p connector \<Rightarrow> json \<Rightarrow> json list" where
  "attachment_records env self page_id =
     (case confluence_client self of
        Inl e \<Rightarrow> []
      | Inr c \<Rightarrow> fst (paginated_cql_retrieval c (construct_attachment_query env self page_id)
                         (Some (join '','' ATTACHMENT_EXPANSION_FIELDS)) None))"

definition converted ::
  "'p env \<Rightarrow> 'p connector \<Rightarrow> json option \<Rightarrow> json list \<Rightarrow> document list" where
  "converted env self parent records =
     concat (map (\<lambda>r. case convert_object_to_document env self r parent of
                         Inr (Some d) \<Rightarrow> [d]
                       | _ \<Rightarrow> []) records)"

definition page_ids :: "json list \<Rightarrow> json list" where
  "page_ids pages =
     concat (map (\<lambda>p. case getitem p ''id'' of Inr i \<Rightarrow> [i] | Inl e \<Rightarrow> []) pages)"

definition page_documents ::
  "'p env \<Rightarrow> 'p connector \<Rightarrow> int option \<Rightarrow> int option \<Rightarrow> document list" where
  "page_documents env self start end_arg =
     converted env self None (page_records self start end_arg)"

definition attachment_documents ::
  "'p env \<Rightarrow> 'p connector \<Rightarrow> int option \<Rightarrow> int option \<Rightarrow> document list" where
  "attachment_documents env self start end_arg =
     concat (map (\<lambda>i. converted env self (Some i) (attachment_records env self i))
                 (page_ids (page_records self start end_arg)))"

text \<open>The same for the slim fetch: its page records and a page's attachment records.\<close>

definition slim_page_records :: "'p connector \<Rightarrow> json list" where
  "slim_page_records self =
     (case confluence_client self of
        Inl e \<Rightarrow> []
      | Inr c \<Rightarrow> fst (cql_paginate_all_expansions c
                         (base_cql_page_query self @ cql_label_filter self)
                         (Some (join '','' RESTRICTIONS_EXPANSION_FIELDS))
                         (Some (int SLIM_DOC_BATCH_SIZE))))"

definition slim_attachment_records :: "'p env \<Rightarrow> 'p connector \<Rightarrow> json \<Rightarrow> json list" where
  "slim_attachment_records env self page =
     (case getitem page ''id'' of
        Inl e \<Rightarrow> []
      | Inr page_id \<Rightarrow>
          (case confluence_client self of
             Inl e \<Rightarrow> []
           | Inr c \<Rightarrow> fst (cql_paginate_all_expansions c
                              (construct_attachment_query env self page_id)
                              (Some (join '','' RESTRICTIONS_EXPANSION_FIELDS))
                              (Some (int SLIM_DOC_BATCH_SIZE)))))"

text \<open>
  The entries the slim fetch collects for one page, starting from an empty list, and for a
  list of pages (a page on which the collection raises contributes none).
\<close>

definition slim_page_entries ::
  "'p env \<Rightarrow> 'p connector \<Rightarrow> json \<Rightarrow> error + slim_document list" where
  "slim_page_entries env self page = slim_collect_page env self page []"

definition slim_entries :: "'p env \<Rightarrow> 'p connector \<Rightarrow> json list \<Rightarrow> slim_document list" where
  "slim_entries env self pages =
     concat (map (\<lambda>p. case slim_page_entries env self p of Inr es \<Rightarrow> es | Inl e \<Rightarrow> []) pages)"

text \<open>
  What a record says of itself: \<open>record.get("restrictions")\<close> and
  \<open>record.get("space", {}).get("key")\<close>. An attachment is indexable when the file-type
  check accepts it.
\<close>

definition record_restrictions :: "json \<Rightarrow> error + json" where
  "record_restrictions r = get_default r ''restrictions'' JNone"

definition record_space_key :: "json \<Rightarrow> error + json" where
  "record_space_key r =
     ebind (get_default r ''space'' (JDict [])) (\<lambda>sp. get_default sp ''key'' JNone)"

definition indexable :: "'p env \<Rightarrow> json \<Rightarrow> bool" where
  "indexable env attachment = (validate_attachment_filetype env attachment = Inr True)"

text \<open>
  The inheritance rule, stated on the emitted entries. The entry \<open>pe\<close> of a page carries
  the page record's restrictions (an empty dictionary when it has none) and space key.
  The payload of the entry \<open>sd\<close> of an attachment record \<open>a\<close> found for a page has two
  keys: under \<open>restrictions\<close> the attachment's own restrictions when it has some and the
  page record's otherwise (an empty dictionary when the page has none either), and under
  \<open>space_key\<close> the attachment's own space key when it has one and the page record's
  otherwise. The entries of a page are its own entry followed by one entry for each
  indexable attachment record, in pagination order.
\<close>

definition page_entry_ok :: "json \<Rightarrow> slim_document \<Rightarrow> bool" where
  "page_entry_ok page pe =
     (case (record_restrictions page, record_space_key page) of
        (Inr pr, Inr psk) \<Rightarrow>
          getitem (perm_sync_data pe) ''restrictions'' = Inr (py_or pr (JDict []))
          \<and> getitem (perm_sync_data pe) ''space_key'' = Inr psk
      | _ \<Rightarrow> False)"

definition inherited :: "json \<Rightarrow> json \<Rightarrow> json" where
  "inherited own parent = (if truthy own then own else parent)"

definition attachment_entry_ok :: "json \<Rightarrow> json \<Rightarrow> slim_document \<Rightarrow> bool" where
  "attachment_entry_ok page a sd =
     (case (record_restrictions page, record_space_key page) of
        (Inr pr, Inr psk) \<Rightarrow>
          (case (record_restrictions a, record_space_key a) of
             (Inr own_restrictions, Inr own_space_key) \<Rightarrow>
               perm_sync_data sd
                 = JDict [(''restrictions'', inherited own_restrictions (py_or pr (JDict []))),
                          (''space_key'', inherited own_space_key psk)]
           | _ \<Rightarrow> False)
      | _ \<Rightarrow> False)"

definition page_entries_ok ::
  "'p env \<Rightarrow> 'p connector \<Rightarrow> json \<Rightarrow> slim_document list \<Rightarrow> bool" where
  "page_entries_ok env self page es =
     (case es of
        [] \<Rightarrow> False
      | pe # aes \<Rightarrow>
          page_entry_ok page pe
          \<and> list_all2 (attachment_entry_ok page)
               (filter (indexable env) (slim_attachment_records env self page)) aes)"

subsection \<open>Accumulating loops\<close>

text \<open>
  What a loop yields, flattened, followed by what its final state still holds, is what
  the initial state held followed by the contributions of the items; when the loop
  raises, what it yielded is a prefix of that.
\<close>

definition accumulates ::
  "('s \<Rightarrow> 'd list) \<Rightarrow> 's \<Rightarrow> 'd list \<Rightarrow> ('d list, 's) gen \<Rightarrow> bool" where
  "accumulates acc s ds g =
     (case snd g of
        Inr s' \<Rightarrow> concat (fst g) @ acc s' = acc s @ ds
      | Inl e \<Rightarrow> prefix (concat (fst g)) (acc s @ ds))"

subsection \<open>An example instance\<close>

text \<open>
  A small wiki with three pages, the first of which has two attachments, and helpers
  that always succeed; used to run the definitions on concrete input.
\<close>

definition example_page :: "string \<Rightarrow> json" where
  "example_page i =
     JDict [(''id'', JStr i), (''type'', JStr ''page''), (''title'', JStr (''Page '' @ i)),
            (''_links'', JDict [(''webui'', JStr (''/pages/'' @ i))]),
            (''space'', JDict [(''key'', JStr ''ENG''), (''name'', JStr ''Engineering'')]),
            (''restrictions'', JDict [(''read'', JStr ''alice'')])]"

definition example_attachment :: "string \<Rightarrow> json" where
  "example_attachment i =
     JDict [(''id'', JStr i), (''type'', JStr ''attachment''), (''title'', JStr (i @ ''.pdf'')),
            (''_links'', JDict [(''webui'', JStr (''/download/'' @ i))]),
            (''space'', JDict [(''key'', JStr ''ENG''), (''name'', JStr ''Engineering'')])]"

definition example_retrieval :: "string \<Rightarrow> string option \<Rightarrow> int option \<Rightarrow> json list \<times> error option" where
  "example_retrieval cql expand limit =
     (if cql = ''type=page'' then
        ([example_page ''1'', example_page ''2'', example_page ''3''], None)
      else if cql = ''type=attachment and container='' @ [apos] @ ''1'' @ [apos]
                      @ FULL_EXTENSION_FILTER_STRING then
        ([example_attachment ''a'', example_attachment ''b''], None)
      else ([], None))"

definition example_spaces :: "int \<Rightarrow> error + json" where
  "example_spaces limit = Inr (JDict [(''results'', JList [JDict [(''key'', JStr ''ENG'')]])])"

definition example_client :: client where
  "example_client =
     \<lparr> paginated_cql_retrieval = example_retrieval,
       cql_paginate_all_expansions = example_retrieval,
       get_all_spaces = example_spaces \<rparr>"

definition example_build_id :: "string \<Rightarrow> json \<Rightarrow> bool \<Rightarrow> error + string" where
  "example_build_id base webui cloud =
     (case webui of JStr s \<Rightarrow> Inr (base @ (if cloud then ''/wiki'' else []) @ s)
                  | _ \<Rightarrow> Inl TypeError)"

definition example_env :: "unit env" where
  "example_env =
     \<lparr> list_of_set = remdups,
       str_other = (\<lambda>v. ''None''),
       OnyxConfluence = (\<lambda>cloud base provider. Inr example_client),
       probe_connection = (\<lambda>c kwargs. None),
       initialize_connection = (\<lambda>c kwargs. Inr c),
       build_confluence_document_id = example_build_id,
       extract_text_from_confluence_html = (\<lambda>c obj titles. Inr ''text''),
       attachment_to_content = (\<lambda>c att parent. Inr (Some ''content'')),
       datetime_from_string = (\<lambda>v. Inr 0),
       validate_attachment_filetype = (\<lambda>att. Inr True) \<rparr>"

definition example_connector :: "unit connector" where
  "example_connector =
     \<lparr> batch_size = 2,
       continue_on_failure = False,
       is_cloud = True,
       wiki_base = ''https://wiki.example.com'',
       base_cql_page_query = ''type=page'',
       cql_label_filter = [],
       timezone = 0,
       credentials_provider = Some (),
       private_confluence_client = Some example_client \<rparr>"

text \<open>A probe that fails with HTTP 401, and a heartbeat that always asks to stop.\<close>

definition spaces_401 :: "int \<Rightarrow> error + json" where
  "spaces_401 limit = Inl (HTTPError (Some \<lparr> status_code = 401 \<rparr>))"

definition connector_401 :: "unit connector" where
  "connector_401 =
     example_connector
       \<lparr> private_confluence_client := Some (example_client \<lparr> get_all_spaces := spaces_401 \<rparr>) \<rparr>"

definition always_stop :: "nat \<Rightarrow> bool" where
  "always_stop n = True"

text \<open>
  A wiki with two pages of \<open>n\<close> attachments each; one whose only page has two
  attachments without restrictions, the first naming no space and the second a space of its
  own; and a query that matches no page.
\<close>

definition bulk_retrieval ::
  "nat \<Rightarrow> string \<Rightarrow> string option \<Rightarrow> int option \<Rightarrow> json list \<times> error option" where
  "bulk_retrieval n cql expand limit =
     (if cql = ''type=page'' then ([example_page ''1'', example_page ''2''], None)
      else (replicate n (example_attachment ''a''), None))"

definition bulk_connector :: "nat \<Rightarrow> unit connector" where
  "bulk_connector n =
     example_connector
       \<lparr> private_confluence_client :=
           Some (example_client \<lparr> cql_paginate_all_expansions := bulk_retrieval n \<rparr>) \<rparr>"

definition foreign_attachment :: json where
  "foreign_attachment =
     JDict [(''id'', JStr ''f''), (''type'', JStr ''attachment''), (''title'', JStr ''f.pdf''),
            (''_links'', JDict [(''webui'', JStr ''/download/f'')]),
            (''space'', JDict [(''key'', JStr ''OPS''), (''name'', JStr ''Operations'')])]"

definition bare_attachment :: json where
  "bare_attachment =
     JDict [(''id'', JStr ''c''), (''type'', JStr ''attachment''), (''title'', JStr ''c.pdf''),
            (''_links'', JDict [(''webui'', JStr ''/download/c'')])]"

definition foreign_retrieval :: "string \<Rightarrow> string option \<Rightarrow> int option \<Rightarrow> json list \<times> error option" where
  "foreign_retrieval cql expand limit =
     (if cql = ''type=page'' then ([example_page ''1''], None)
      else ([bare_attachment, foreign_attachment], None))"

definition foreign_connector :: "unit connector" where
  "foreign_connector =
     example_connector
       \<lparr> private_confluence_client :=
           Some (example_client \<lparr> cql_paginate_all_expansions := foreign_retrieval \<rparr>) \<rparr>"

definition empty_connector :: "unit connector" where
  "empty_connector = example_connector \<lparr> base_cql_page_query := ''type=page and id='' @ [apos] @ ''0'' @ [apos] \<rparr>"

subsection \<open>The shape of a slim fetch with a heartbeat\<close>

text \<open>
  Events that come in groups of three: a batch of exactly the slim batch size, the
  heartbeat's answer not to stop, and the progress report. The heartbeat \<open>cb\<close> gives the
  answer \<open>cb n\<close> to the call made after \<open>n\<close> earlier calls; the groups are checked from
  the call number \<open>n\<close> on.
\<close>

fun checked_slices :: "(nat \<Rightarrow> bool) \<Rightarrow> nat \<Rightarrow> slim_event list \<Rightarrow> bool" where
  "checked_slices cb n [] = True"
| "checked_slices cb n (Emit b # ShouldStop False # Progress tag k # evs) =
     (length b = SLIM_DOC_BATCH_SIZE \<and> \<not> cb n \<and> tag = ''retrieve_all_slim_documents''
      \<and> k = 1 \<and> checked_slices cb (Suc n) evs)"
| "checked_slices cb n _ = False"

text \<open>A heartbeat that asks to stop at its second call only.\<close>

definition stop_second :: "nat \<Rightarrow> bool" where
  "stop_second n = (n = 1)"

section \<open>Properties\<close>

subsection \<open>Constructor\<close>

lemma rstrip_append_slashes:
  "rstrip (wb @ replicate n CHR ''/'') ''/'' = rstrip wb ''/''"
  by (simp add: rstrip_def, intro dropWhile_append2, simp)

text \<open>
  C10. A wiki base URL followed by any number of trailing slashes gives the same connector
  as the URL itself: the constructor stores the stripped base, and nothing else of the
  argument. Every query, document id and link is computed from the connector, and the
  client is built from its stored base, so they agree as well.
\<close>

theorem init_trailing_slashes:
  "init env (wb @ replicate n CHR ''/'') cloud space page_id index_recursively cql_query
        bs cof labels tz
     = init env wb cloud space page_id index_recursively cql_query bs cof labels tz"
  unfolding init_def rstrip_append_slashes by (rule refl)

text \<open>
  C1. The base page query of a constructed connector is chosen by priority: a non-empty
  raw CQL query replaces it entirely; otherwise a page id gives the filter on that id
  (with its descendants when indexing recursively); otherwise a space gives the filter on
  the URL-escaped space; otherwise the query is the unfiltered \<open>type=page\<close>.
\<close>

theorem base_page_query_priority:
  assumes "init env wb cloud space page_id index_recursively cql_query bs cof labels tz = Inr c"
  shows "base_cql_page_query c =
     (case cql_query of
        Some q \<Rightarrow>
          if q \<noteq> [] then q
          else if page_id \<noteq> [] then
            (if index_recursively
             then ''type=page and (ancestor='' @ [apos] @ page_id @ [apos]
                    @ '' or id='' @ [apos] @ page_id @ [apos] @ '')''
             else ''type=page and id='' @ [apos] @ page_id @ [apos])
          else if space \<noteq> [] then ''type=page and space='' @ [apos] @ quote space @ [apos]
          else ''type=page''
      | None \<Rightarrow>
          if page_id \<noteq> [] then
            (if index_recursively
             then ''type=page and (ancestor='' @ [apos] @ page_id @ [apos]
                    @ '' or id='' @ [apos] @ page_id @ [apos] @ '')''
             else ''type=page and id='' @ [apos] @ page_id @ [apos])
          else if space \<noteq> [] then ''type=page and space='' @ [apos] @ quote space @ [apos]
          else ''type=page'')"
  using assms
  by (auto simp: init_def Let_def str_truthy_def split: sum.splits option.splits)

lemma quote_my_space: "quote ''my space'' = ''my%20space''"
  by code_simp

theorem base_page_query_priority_witness:
  "map_sum id base_cql_page_query
     (init example_env ''https://wiki.example.com/'' True ''my space'' [] False None 2 False [] 0)
   = Inr (''type=page and space='' @ [apos] @ ''my%20space'' @ [apos])"
proof -
  obtain c where h:
    "init example_env ''https://wiki.example.com/'' True ''my space'' [] False None 2 False [] 0
       = Inr c"
    by (simp add: init_def mk_timezone_def Let_def)
  from base_page_query_priority [OF h]
  have "base_cql_page_query c = ''type=page and space='' @ [apos] @ ''my%20space'' @ [apos]"
    by (simp add: quote_my_space)
  with h show ?thesis by simp
qed

subsection \<open>Query construction\<close>

text \<open>
  C6, as the code has it. A bound is used when it is given and is not 0; the guards
  \<open>if start\<close> and \<open>if end\<close> take the epoch 0 for no bound. With \<open>fs\<close> and \<open>fe\<close> the
  minute-precision timestamps of the bounds in the configured timezone, the page query is
  the base query and label filter, then the clause \<open>lastmodified >= 'fs'\<close> when a nonzero
  start is given, then the clause \<open>lastmodified <= 'fe'\<close> when a nonzero end is given, and
  no other clause.
\<close>

theorem poll_time_clauses:
  assumes "\<And>t. start = Some t \<Longrightarrow> t \<noteq> 0 \<Longrightarrow> strftime_minute t (timezone self) = Inr fs"
      and "\<And>t. end_arg = Some t \<Longrightarrow> t \<noteq> 0 \<Longrightarrow> strftime_minute t (timezone self) = Inr fe"
  shows "construct_page_query self start end_arg =
           Inr (base_cql_page_query self @ cql_label_filter self
                @ (if start = None \<or> start = Some 0 then []
                   else '' and lastmodified >= '' @ [apos] @ fs @ [apos])
                @ (if end_arg = None \<or> end_arg = Some 0 then []
                   else '' and lastmodified <= '' @ [apos] @ fe @ [apos]))"
proof -
  have s: "epoch_truthy start \<Longrightarrow> strftime_minute (the start) (timezone self) = Inr fs"
    using assms(1) by (cases start) (auto simp: epoch_truthy_def)
  have e: "epoch_truthy end_arg \<Longrightarrow> strftime_minute (the end_arg) (timezone self) = Inr fe"
    using assms(2) by (cases end_arg) (auto simp: epoch_truthy_def)
  have ts: "epoch_truthy start \<longleftrightarrow> \<not> (start = None \<or> start = Some 0)"
    by (cases start) (auto simp: epoch_truthy_def)
  have te: "epoch_truthy end_arg \<longleftrightarrow> \<not> (end_arg = None \<or> end_arg = Some 0)"
    by (cases end_arg) (auto simp: epoch_truthy_def)
  show ?thesis
  proof (cases "epoch_truthy start")
    case True
    note st = this
    show ?thesis
    proof (cases "epoch_truthy end_arg")
      case True
      with st s e ts te show ?thesis by (simp add: construct_page_query_def)
    next
      case False
      with st s ts te show ?thesis by (simp add: construct_page_query_def)
    qed
  next
    case False
    note st = this
    show ?thesis
    proof (cases "epoch_truthy end_arg")
      case True
      with st e ts te show ?thesis by (simp add: construct_page_query_def)
    next
      case False
      with st ts te show ?thesis by (simp add: construct_page_query_def)
    qed
  qed
qed

lemma strftime_minute_example: "strftime_minute 1700000000 0 = Inr ''2023-11-14 22:13''"
  by code_simp

theorem poll_time_clauses_witness:
  "construct_page_query example_connector (Some 1700000000) None
     = Inr (''type=page and lastmodified >= '' @ [apos] @ ''2023-11-14 22:13'' @ [apos])"
  using poll_time_clauses [of "Some 1700000000" example_connector "''2023-11-14 22:13''" None "[]"]
        strftime_minute_example
  by (simp add: example_connector_def)

text \<open>
  The claim C6 as stated fails at the epoch 0: a poll with both bounds 0 builds the
  query without any time clause.
\<close>

theorem poll_epoch_zero_no_clause:
  "construct_page_query example_connector (Some 0) (Some 0) = Inr ''type=page''"
  by (simp add: construct_page_query_def example_connector_def epoch_truthy_def)

subsection \<open>Settings validation\<close>

lemma validate_missing_credentials:
  "private_confluence_client self = None \<Longrightarrow>
   validate_connector_settings self
     = Some (ConnectorMissingCredentialError ''Confluence credentials not loaded.'')"
  by (simp add: validate_connector_settings_def)

lemma validate_no_spaces:
  "private_confluence_client self = Some c \<Longrightarrow> get_all_spaces c 1 = Inr (JDict kvs) \<Longrightarrow>
   map_of kvs ''results'' = Some (JList []) \<Longrightarrow>
   \<exists>m. validate_connector_settings self = Some (ConnectorValidationError m)"
  by (simp add: validate_connector_settings_def)

lemma validate_other_failure:
  "private_confluence_client self = Some c \<Longrightarrow> get_all_spaces c 1 = Inl e \<Longrightarrow>
   \<forall>r. e \<noteq> HTTPError r \<Longrightarrow> validate_connector_settings self = Some UnexpectedError"
  by (cases e) (simp_all add: validate_connector_settings_def)

text \<open>
  An \<open>HTTPError\<close> whose response carries a client or server error code, 401 and 403
  among them, has a response that counts as false, so the status read from it is
  \<open>None\<close> and the generic error is raised.
\<close>

lemma validate_http_error_status:
  assumes "private_confluence_client self = Some c"
      and "get_all_spaces c 1 = Inl (HTTPError (Some r))"
      and "400 \<le> status_code r" and "status_code r < 600"
  shows "validate_connector_settings self = Some UnexpectedError"
  using assms
  by (simp add: validate_connector_settings_def response_truthy_def response_ok_def)

lemma get_default_error: "get_default x k d = Inl e \<Longrightarrow> e = AttributeError"
  by (cases x) (auto split: option.splits)

lemma validate_never_credential_expired:
  "validate_connector_settings self \<noteq> Some (CredentialExpiredError m)"
proof (cases "private_confluence_client self")
  case None
  then show ?thesis by (simp add: validate_connector_settings_def)
next
  case (Some c)
  show ?thesis
  proof (cases "get_all_spaces c 1")
    case (Inl e)
    with Some show ?thesis
      by (cases e)
         (auto simp: validate_connector_settings_def response_truthy_def response_ok_def Let_def
               split: option.splits)
  next
    case (Inr spaces)
    with Some show ?thesis
      by (auto simp: validate_connector_settings_def split: sum.splits dest: get_default_error)
  qed
qed

text \<open>
  C4 at a probe answered with HTTP 401: the validation raises the generic unexpected
  error, not the credential-expired error.
\<close>

theorem validate_401_unexpected:
  "validate_connector_settings connector_401 = Some UnexpectedError"
  by (simp add: validate_connector_settings_def connector_401_def example_connector_def
        example_client_def spaces_401_def response_truthy_def response_ok_def)


subsection \<open>Generators\<close>

lemma gen_bind_elims:
  assumes "gen_bind m f = (ys, r)"
  obtains (raise) e where "m = (ys, Inl e)" "r = Inl e"
        | (cont) ys1 a zs where "m = (ys1, Inr a)" "f a = (zs, r)" "ys = ys1 @ zs"
  using assms
  by (cases m) (auto simp: gen_bind_def split: sum.splits prod.splits)

text \<open>
  An invariant of the loop state that every step keeps, and a property of the yielded
  values that every step ensures under the invariant, hold of the whole loop.
\<close>

lemma for_each_invariant:
  assumes step: "\<And>x s ys r. I s \<Longrightarrow> body x s = (ys, r) \<Longrightarrow>
                   (\<forall>y\<in>set ys. P y) \<and> (\<forall>s'. r = Inr s' \<longrightarrow> I s')"
      and "I s" and "for_each body xs s = (ys, r)"
  shows "(\<forall>y\<in>set ys. P y) \<and> (\<forall>s'. r = Inr s' \<longrightarrow> I s')"
  using assms(2,3)
proof (induction xs arbitrary: s ys r)
  case Nil
  then show ?case by (auto simp: gen_return_def)
next
  case (Cons x xs)
  from Cons.prems(2) have b: "gen_bind (body x s) (for_each body xs) = (ys, r)" by simp
  from b show ?case
  proof (cases rule: gen_bind_elims)
    case (raise e)
    with step [OF Cons.prems(1)] show ?thesis by auto
  next
    case (cont ys1 a zs)
    from step [OF Cons.prems(1) cont(1)] have 1: "\<forall>y\<in>set ys1. P y" and 2: "I a" by auto
    from Cons.IH [OF 2 cont(2)] 1 cont(3) show ?thesis by auto
  qed
qed

lemma for_in_invariant:
  assumes step: "\<And>x s ys r. I s \<Longrightarrow> body x s = (ys, r) \<Longrightarrow>
                   (\<forall>y\<in>set ys. P y) \<and> (\<forall>s'. r = Inr s' \<longrightarrow> I s')"
      and "I s" and "for_in src body s = (ys, r)"
  shows "(\<forall>y\<in>set ys. P y) \<and> (\<forall>s'. r = Inr s' \<longrightarrow> I s')"
proof -
  obtain zs r0 where f: "for_each body (fst src) s = (zs, r0)" by (cases "for_each body (fst src) s")
  from for_each_invariant [of I body P, OF step assms(2) f]
  have 1: "\<forall>y\<in>set zs. P y" and 2: "\<forall>s'. r0 = Inr s' \<longrightarrow> I s'" by auto
  from assms(3) f 1 2 show ?thesis
    by (cases r0; cases "snd src")
       (auto simp: for_in_def gen_bind_def gen_return_def gen_raise_def)
qed

lemma accumulates_prefix:
  "accumulates acc s ds g \<Longrightarrow> prefix (concat (fst g)) (acc s @ ds)"
  by (cases "snd g") (auto simp: accumulates_def intro: prefixI dest: sym)

lemma for_each_accumulates:
  assumes step: "\<And>x s. accumulates acc s (contrib x) (body x s)"
  shows "accumulates acc s (concat (map contrib xs)) (for_each body xs s)"
proof (induction xs arbitrary: s)
  case Nil
  then show ?case by (simp add: accumulates_def gen_return_def)
next
  case (Cons x xs)
  obtain ys r where b: "body x s = (ys, r)" by (cases "body x s")
  show ?case
  proof (cases r)
    case (Inl e)
    with b step [of s x] have "prefix (concat ys) (acc s @ contrib x)"
      by (simp add: accumulates_def)
    then have "prefix (concat ys) ((acc s @ contrib x) @ concat (map contrib xs))"
      by (rule prefix_prefix)
    with b Inl show ?thesis
      by (simp add: accumulates_def gen_bind_def)
  next
    case (Inr a)
    obtain zs r' where f: "for_each body xs a = (zs, r')" by (cases "for_each body xs a")
    from step [of s x] b Inr have 1: "concat ys @ acc a = acc s @ contrib x"
      by (simp add: accumulates_def)
    from Cons.IH [of a] f have 2: "accumulates acc a (concat (map contrib xs)) (zs, r')" by simp
    show ?thesis
    proof (cases r')
      case (Inl e)
      with 2 have "prefix (concat zs) (acc a @ concat (map contrib xs))"
        by (simp add: accumulates_def)
      then have "prefix (concat ys @ concat zs) (concat ys @ acc a @ concat (map contrib xs))"
        by simp
      with 1 have "prefix (concat ys @ concat zs) (acc s @ contrib x @ concat (map contrib xs))"
        by (metis append.assoc)
      with b f Inr Inl show ?thesis by (simp add: accumulates_def gen_bind_def)
    next
      case (Inr s')
      with 2 have "concat zs @ acc s' = acc a @ concat (map contrib xs)"
        by (simp add: accumulates_def)
      with 1 have "concat ys @ concat zs @ acc s' = acc s @ contrib x @ concat (map contrib xs)"
        by (metis append.assoc)
      with b f \<open>r = Inr a\<close> Inr show ?thesis by (simp add: accumulates_def gen_bind_def)
    qed
  qed
qed

lemma for_in_accumulates:
  assumes step: "\<And>x s. accumulates acc s (contrib x) (body x s)"
  shows "accumulates acc s (concat (map contrib (fst src))) (for_in src body s)"
proof -
  obtain zs r where f: "for_each body (fst src) s = (zs, r)" by (cases "for_each body (fst src) s")
  from for_each_accumulates [of acc contrib body s "fst src", OF step] f
  have a: "accumulates acc s (concat (map contrib (fst src))) (zs, r)" by simp
  show ?thesis
  proof (cases r)
    case (Inl e)
    with a f show ?thesis by (simp add: for_in_def gen_bind_def accumulates_def)
  next
    case (Inr s')
    show ?thesis
    proof (cases "snd src")
      case None
      with a f Inr show ?thesis
        by (simp add: for_in_def gen_bind_def accumulates_def gen_return_def)
    next
      case (Some e)
      from accumulates_prefix [OF a] have "prefix (concat zs) (acc s @ concat (map contrib (fst src)))"
        by simp
      with f Inr Some show ?thesis
        by (simp add: for_in_def gen_bind_def accumulates_def gen_raise_def)
    qed
  qed
qed

subsection \<open>The full document fetch: batch sizes\<close>

lemma append_and_emit_sizes:
  assumes "1 \<le> batch_size self" and "int (length b) < batch_size self"
      and "append_and_emit self doc b = (ys, r)"
  shows "(\<forall>y\<in>set ys. int (length y) = batch_size self)
         \<and> (\<forall>b'. r = Inr b' \<longrightarrow> int (length b') < batch_size self)"
  using assms
  by (cases doc) (auto simp: append_and_emit_def Let_def split: if_splits)

lemma page_body_cases:
  assumes "page_body env self page st = (ys, r)"
  obtains (raise) e where "ys = []" "r = Inl e"
        | (emit) doc page_id zs b' where
            "append_and_emit self doc (fst st) = (zs, Inr b')" "ys = zs"
            "r = Inr (b', snd st @ [page_id])"
            "getitem page ''id'' = Inr page_id"
            "convert_object_to_document env self page None = Inr doc"
proof (cases "getitem page ''id''")
  case (Inl e)
  with assms have "ys = []" "r = Inl e"
    by (simp_all add: page_body_def gen_raise_def split: prod.splits)
  then show ?thesis by (rule raise)
next
  case (Inr page_id)
  note pid = this
  show ?thesis
  proof (cases "convert_object_to_document env self page None")
    case (Inl e)
    with assms pid have "ys = []" "r = Inl e"
      by (simp_all add: page_body_def gen_raise_def split: prod.splits)
    then show ?thesis by (rule raise)
  next
    case (Inr doc)
    obtain zs r0 where a: "append_and_emit self doc (fst st) = (zs, r0)"
      by (cases "append_and_emit self doc (fst st)")
    obtain b' where r0: "r0 = Inr b'"
      using a by (cases doc) (auto simp: append_and_emit_def Let_def split: if_splits)
    from assms pid Inr a r0 have "ys = zs" "r = Inr (b', snd st @ [page_id])"
      by (simp_all add: page_body_def gen_bind_def gen_return_def split: prod.splits)
    with a r0 pid Inr show ?thesis by (intro emit [of doc zs b' page_id]) simp_all
  qed
qed

lemma page_body_sizes:
  assumes "1 \<le> batch_size self" and "int (length (fst st)) < batch_size self"
      and "page_body env self page st = (ys, r)"
  shows "(\<forall>y\<in>set ys. int (length y) = batch_size self)
         \<and> (\<forall>st'. r = Inr st' \<longrightarrow> int (length (fst st')) < batch_size self)"
  using assms(3)
proof (cases rule: page_body_cases)
  case (raise e)
  then show ?thesis by simp
next
  case (emit doc page_id zs b')
  from append_and_emit_sizes [OF assms(1,2) emit(1)] emit(2,3) show ?thesis by simp
qed

lemma attachment_body_sizes:
  assumes "1 \<le> batch_size self" and "int (length b) < batch_size self"
      and "attachment_body env self pid attachment b = (ys, r)"
  shows "(\<forall>y\<in>set ys. int (length y) = batch_size self)
         \<and> (\<forall>b'. r = Inr b' \<longrightarrow> int (length b') < batch_size self)"
proof (cases "convert_object_to_document env self attachment (Some pid)")
  case (Inl e)
  with assms(3) have "ys = []" "r = Inl e" by (simp_all add: attachment_body_def gen_raise_def)
  then show ?thesis by simp
next
  case (Inr doc)
  with assms(3) have "append_and_emit self doc b = (ys, r)" by (simp add: attachment_body_def)
  from append_and_emit_sizes [OF assms(1,2) this] show ?thesis .
qed

lemma attachments_of_page_sizes:
  assumes "1 \<le> batch_size self" and "int (length b) < batch_size self"
      and "attachments_of_page env self pid b = (ys, r)"
  shows "(\<forall>y\<in>set ys. int (length y) = batch_size self)
         \<and> (\<forall>b'. r = Inr b' \<longrightarrow> int (length b') < batch_size self)"
proof (cases "confluence_client self")
  case (Inl e)
  with assms(3) have "ys = []" "r = Inl e"
    by (simp_all add: attachments_of_page_def gen_raise_def)
  then show ?thesis by simp
next
  case (Inr c)
  with assms(3) have
    "for_in (paginated_cql_retrieval c (construct_attachment_query env self pid)
               (Some (join '','' ATTACHMENT_EXPANSION_FIELDS)) None)
            (attachment_body env self pid) b = (ys, r)"
    by (simp add: attachments_of_page_def)
  from for_in_invariant [of "\<lambda>b. int (length b) < batch_size self" "attachment_body env self pid"
                            "\<lambda>y. int (length y) = batch_size self", OF _ assms(2) this]
       attachment_body_sizes [OF assms(1)]
  show ?thesis by blast
qed

text \<open>
  The shape of the output: batches of exactly the batch size, then at most one
  non-empty batch below it.
\<close>

lemma fetch_document_batches_shape:
  assumes bs: "1 \<le> batch_size self"
      and run: "fetch_document_batches env self start end_arg = (batches, r)"
  shows "\<exists>full rest. batches = full @ rest
           \<and> (\<forall>y\<in>set full. int (length y) = batch_size self)
           \<and> (rest = [] \<or> (\<exists>b. rest = [b] \<and> b \<noteq> [] \<and> int (length b) < batch_size self))"
proof (cases "construct_page_query self start end_arg")
  case (Inl e)
  with run have "batches = []" by (simp add: fetch_document_batches_def gen_raise_def)
  then show ?thesis by simp
next
  case (Inr page_query)
  note q = this
  show ?thesis
  proof (cases "confluence_client self")
    case (Inl e)
    with run q have "batches = []" by (simp add: fetch_document_batches_def gen_raise_def)
    then show ?thesis by simp
  next
    case (Inr c)
    let ?pages = "for_in (paginated_cql_retrieval c page_query
                            (Some (join '','' PAGE_EXPANSION_FIELDS)) (Some (batch_size self)))
                         (page_body env self) ([], [])"
    let ?tail = "\<lambda>st. gen_bind (for_each (attachments_of_page env self) (snd st) (fst st))
                    (\<lambda>doc_batch. if doc_batch \<noteq> [] then ([doc_batch], Inr ())
                                 else gen_return ())"
    from run q Inr have g: "gen_bind ?pages ?tail = (batches, r)"
      by (simp add: fetch_document_batches_def)
    from bs have i0: "int (length (fst (([], []) :: document list \<times> json list))) < batch_size self"
      by simp
    note pages_inv =
      for_in_invariant [of "\<lambda>st. int (length (fst st)) < batch_size self" "page_body env self"
                           "\<lambda>y. int (length y) = batch_size self", OF _ i0]
    note atts_inv =
      for_each_invariant [of "\<lambda>b. int (length b) < batch_size self"
                             "attachments_of_page env self"
                             "\<lambda>y. int (length y) = batch_size self"]
    from g show ?thesis
    proof (cases rule: gen_bind_elims)
      case (raise e)
      from pages_inv [OF _ raise(1)] page_body_sizes [OF bs]
      have "\<forall>y\<in>set batches. int (length y) = batch_size self" by blast
      then show ?thesis by (intro exI [of _ batches] exI [of _ "[]"]) simp
    next
      case (cont ys1 st zs)
      from pages_inv [OF _ cont(1)] page_body_sizes [OF bs]
      have y1: "\<forall>y\<in>set ys1. int (length y) = batch_size self"
        and b1: "int (length (fst st)) < batch_size self" by blast+
      from cont(2) show ?thesis
      proof (cases rule: gen_bind_elims)
        case (raise e)
        from atts_inv [OF _ b1 raise(1)] attachments_of_page_sizes [OF bs]
        have "\<forall>y\<in>set zs. int (length y) = batch_size self" by blast
        with y1 cont(3) show ?thesis by (intro exI [of _ batches] exI [of _ "[]"]) auto
      next
        case (cont ys2 b zs2)
        from atts_inv [OF _ b1 cont(1)] attachments_of_page_sizes [OF bs]
        have y2: "\<forall>y\<in>set ys2. int (length y) = batch_size self"
          and lb: "int (length b) < batch_size self" by blast+
        from cont(2) have z2: "zs2 = (if b \<noteq> [] then [b] else [])"
          by (cases "b = []") (simp_all add: gen_return_def)
        from y1 y2 have f: "\<forall>y\<in>set (ys1 @ ys2). int (length y) = batch_size self" by auto
        from \<open>batches = ys1 @ zs\<close> cont(3) have sh: "batches = (ys1 @ ys2) @ zs2" by simp
        from z2 lb have "zs2 = [] \<or> (\<exists>b. zs2 = [b] \<and> b \<noteq> [] \<and> int (length b) < batch_size self)"
          by (cases "b = []") simp_all
        with f sh show ?thesis by blast
      qed
    qed
  qed
qed

text \<open>
  C2. With a batch size of at least 1, every batch the full fetch emits (load and poll
  are this fetch) is non-empty and holds at most the batch size of documents, and every
  batch but the last holds exactly the batch size. This holds of the batches emitted up
  to an exception as well.
\<close>

theorem fetch_batches_bounded:
  assumes "1 \<le> batch_size self"
      and "fetch_document_batches env self start end_arg = (batches, r)"
      and "i < length batches"
  shows "batches ! i \<noteq> [] \<and> int (length (batches ! i)) \<le> batch_size self
         \<and> (i + 1 < length batches \<longrightarrow> int (length (batches ! i)) = batch_size self)"
proof -
  from fetch_document_batches_shape [OF assms(1,2)]
  obtain full rest where sh: "batches = full @ rest"
    and full: "\<forall>y\<in>set full. int (length y) = batch_size self"
    and rest: "rest = [] \<or> (\<exists>b. rest = [b] \<and> b \<noteq> [] \<and> int (length b) < batch_size self)"
    by blast
  show ?thesis
  proof (cases "i < length full")
    case True
    with full have "int (length (full ! i)) = batch_size self" by simp
    with True sh assms(1) show ?thesis by (auto simp: nth_append)
  next
    case False
    with assms(3) sh rest obtain b where r: "rest = [b]" "b \<noteq> []" "int (length b) < batch_size self"
      by auto
    with False assms(3) sh have "i = length full" by simp
    with r sh show ?thesis by (simp add: nth_append)
  qed
qed

lemma length_example_batches:
  "length (fst (fetch_document_batches example_env example_connector None None)) = 3"
  by code_simp

lemma batch_size_example: "batch_size example_connector = 2"
  by (simp add: example_connector_def)

theorem fetch_batches_bounded_witness:
  "fst (fetch_document_batches example_env example_connector None None) ! 0 \<noteq> []
   \<and> int (length (fst (fetch_document_batches example_env example_connector None None) ! 0)) = 2
   \<and> length (fst (fetch_document_batches example_env example_connector None None)) = 3"
  using fetch_batches_bounded [of example_connector example_env None None
          "fst (fetch_document_batches example_env example_connector None None)"
          "snd (fetch_document_batches example_env example_connector None None)" 0]
        length_example_batches batch_size_example
  by simp

subsection \<open>The full document fetch: order\<close>

lemma converted_single:
  "converted env self parent [x] =
     (case convert_object_to_document env self x parent of Inr (Some d) \<Rightarrow> [d] | _ \<Rightarrow> [])"
  by (simp add: converted_def)

lemma converted_concat:
  "concat (map (\<lambda>x. converted env self parent [x]) xs) = converted env self parent xs"
  by (induction xs) (simp_all add: converted_def)

lemma append_and_emit_accumulates:
  "accumulates (\<lambda>b. b) b (case doc of None \<Rightarrow> [] | Some d \<Rightarrow> [d]) (append_and_emit self doc b)"
  by (cases doc) (simp_all add: accumulates_def append_and_emit_def Let_def)

lemma page_body_accumulates:
  "accumulates fst st (converted env self None [page]) (page_body env self page st)"
proof -
  obtain ys r where eq: "page_body env self page st = (ys, r)"
    by (cases "page_body env self page st")
  from eq show ?thesis
  proof (cases rule: page_body_cases)
    case (raise e)
    with eq show ?thesis by (simp add: accumulates_def)
  next
    case (emit doc page_id zs b')
    from append_and_emit_accumulates [of "fst st" doc self] emit(1)
    have "concat zs @ b' = fst st @ (case doc of None \<Rightarrow> [] | Some d \<Rightarrow> [d])"
      by (simp add: accumulates_def)
    moreover have "converted env self None [page] = (case doc of None \<Rightarrow> [] | Some d \<Rightarrow> [d])"
      using emit(5) by (cases doc) (simp_all add: converted_single)
    ultimately show ?thesis using eq emit(2,3) by (simp add: accumulates_def)
  qed
qed

lemma attachment_body_accumulates:
  "accumulates (\<lambda>b. b) b (converted env self (Some pid) [att])
     (attachment_body env self pid att b)"
proof (cases "convert_object_to_document env self att (Some pid)")
  case (Inl e)
  then show ?thesis by (simp add: attachment_body_def gen_raise_def accumulates_def)
next
  case (Inr doc)
  then have "converted env self (Some pid) [att] = (case doc of None \<Rightarrow> [] | Some d \<Rightarrow> [d])"
    by (cases doc) (simp_all add: converted_single)
  with Inr append_and_emit_accumulates [of b doc self] show ?thesis
    by (simp add: attachment_body_def)
qed

lemma attachments_of_page_accumulates:
  "accumulates (\<lambda>b. b) b (converted env self (Some pid) (attachment_records env self pid))
     (attachments_of_page env self pid b)"
proof (cases "confluence_client self")
  case (Inl e)
  then show ?thesis by (simp add: attachments_of_page_def gen_raise_def accumulates_def)
next
  case (Inr c)
  let ?src = "paginated_cql_retrieval c (construct_attachment_query env self pid)
                (Some (join '','' ATTACHMENT_EXPANSION_FIELDS)) None"
  from for_in_accumulates [of "\<lambda>b. b" "\<lambda>x. converted env self (Some pid) [x]"
                             "attachment_body env self pid" b ?src]
       attachment_body_accumulates [of _ env self pid]
  have "accumulates (\<lambda>b. b) b (converted env self (Some pid) (fst ?src))
          (for_in ?src (attachment_body env self pid) b)"
    by (simp add: converted_concat)
  with Inr show ?thesis by (simp add: attachments_of_page_def attachment_records_def)
qed

lemma page_ids_Cons:
  "page_ids (p # ps) = (case getitem p ''id'' of Inr i \<Rightarrow> [i] | Inl e \<Rightarrow> []) @ page_ids ps"
  by (simp add: page_ids_def)

lemma page_loop_ids:
  "for_each (page_body env self) pages st = (ys, Inr st') \<Longrightarrow> snd st' = snd st @ page_ids pages"
proof (induction pages arbitrary: st ys)
  case Nil
  then show ?case by (simp add: gen_return_def page_ids_def)
next
  case (Cons p ps)
  from Cons.prems have b: "gen_bind (page_body env self p st) (for_each (page_body env self) ps)
                             = (ys, Inr st')" by simp
  from b show ?case
  proof (cases rule: gen_bind_elims)
    case (raise e)
    then show ?thesis by simp
  next
    case (cont ys1 a zs)
    from cont(1)
    have "snd a = snd st @ (case getitem p ''id'' of Inr i \<Rightarrow> [i] | Inl e \<Rightarrow> [])"
    proof (cases rule: page_body_cases)
      case (raise e)
      then show ?thesis by simp
    next
      case (emit doc page_id zs b')
      then show ?thesis by simp
    qed
    with Cons.IH [OF cont(2)] show ?thesis by (simp add: page_ids_Cons)
  qed
qed

text \<open>
  C3. The documents of a run, in the order of the concatenated batches, are the documents
  converted from the page records in pagination order, followed by the documents converted
  from the attachment records, page by page in the order of the pages and within a page in
  pagination order. A run that ends in an exception has emitted a prefix of that sequence.
\<close>

theorem fetch_pages_before_attachments:
  assumes "fetch_document_batches env self start end_arg = (batches, r)"
  shows "prefix (concat batches)
           (page_documents env self start end_arg @ attachment_documents env self start end_arg)
         \<and> (r = Inr () \<longrightarrow>
              concat batches
                = page_documents env self start end_arg
                    @ attachment_documents env self start end_arg)"
proof (cases "construct_page_query self start end_arg")
  case (Inl e)
  with assms have "batches = []" "r = Inl e"
    by (simp_all add: fetch_document_batches_def gen_raise_def)
  then show ?thesis by simp
next
  case (Inr page_query)
  note q = this
  show ?thesis
  proof (cases "confluence_client self")
    case (Inl e)
    with assms q have "batches = []" "r = Inl e"
      by (simp_all add: fetch_document_batches_def gen_raise_def)
    then show ?thesis by simp
  next
    case (Inr c)
    let ?src = "paginated_cql_retrieval c page_query
                  (Some (join '','' PAGE_EXPANSION_FIELDS)) (Some (batch_size self))"
    let ?pages = "for_in ?src (page_body env self) ([], [])"
    let ?tail = "\<lambda>st. gen_bind (for_each (attachments_of_page env self) (snd st) (fst st))
                    (\<lambda>doc_batch. if doc_batch \<noteq> [] then ([doc_batch], Inr ())
                                 else gen_return ())"
    let ?P = "page_documents env self start end_arg"
    let ?A = "attachment_documents env self start end_arg"
    from q Inr have recs: "page_records self start end_arg = fst ?src"
      by (simp add: page_records_def)
    from assms q Inr have g: "gen_bind ?pages ?tail = (batches, r)"
      by (simp add: fetch_document_batches_def)
    from for_in_accumulates [of fst "\<lambda>x. converted env self None [x]" "page_body env self"
                               "([], [])" ?src]
         page_body_accumulates [of _ env self]
    have pa: "accumulates fst ([], []) ?P ?pages"
      by (simp add: converted_concat page_documents_def recs)
    from g show ?thesis
    proof (cases rule: gen_bind_elims)
      case (raise e)
      with pa have "prefix (concat batches) ?P" by (simp add: accumulates_def)
      then have "prefix (concat batches) (?P @ ?A)" by (rule prefix_prefix)
      with raise show ?thesis by simp
    next
      case (cont ys1 st zs)
      with pa have p1: "concat ys1 @ fst st = ?P" by (simp add: accumulates_def)
      from cont(1) have "for_each (page_body env self) (fst ?src) ([], []) = (ys1, Inr st)"
        by (cases "for_each (page_body env self) (fst ?src) ([], [])"; cases "snd ?src")
           (auto simp: for_in_def gen_bind_def gen_return_def gen_raise_def split: sum.splits)
      from page_loop_ids [OF this] recs
      have ids: "snd st = page_ids (page_records self start end_arg)" by simp
      from for_each_accumulates [of "\<lambda>b. b"
             "\<lambda>i. converted env self (Some i) (attachment_records env self i)"
             "attachments_of_page env self" "fst st" "snd st"]
           attachments_of_page_accumulates [of _ env self] ids
      have aa: "accumulates (\<lambda>b. b) (fst st) ?A
                  (for_each (attachments_of_page env self) (snd st) (fst st))"
        by (simp add: attachment_documents_def)
      from cont(2) show ?thesis
      proof (cases rule: gen_bind_elims)
        case (raise e)
        with aa have "prefix (concat zs) (fst st @ ?A)" by (simp add: accumulates_def)
        then have "prefix (concat ys1 @ concat zs) (concat ys1 @ fst st @ ?A)" by simp
        with p1 have "prefix (concat ys1 @ concat zs) (?P @ ?A)" by (metis append.assoc)
        with raise \<open>batches = ys1 @ zs\<close> show ?thesis by simp
      next
        case (cont ys2 b zs2)
        with aa have a2: "concat ys2 @ b = fst st @ ?A" by (simp add: accumulates_def)
        from cont(2) have z2: "concat zs2 = b"
          by (cases "b = []") (auto simp: gen_return_def)
        have "concat batches = concat ys1 @ concat ys2 @ concat zs2"
          using \<open>batches = ys1 @ zs\<close> cont(3) by simp
        also have "\<dots> = concat ys1 @ fst st @ ?A" using z2 a2 by simp
        also have "\<dots> = ?P @ ?A" using p1 by (metis append.assoc)
        finally show ?thesis by simp
      qed
    qed
  qed
qed

lemma example_fetch_completes:
  "snd (fetch_document_batches example_env example_connector None None) = Inr ()"
  by code_simp

lemma example_fetch_ids:
  "map id_doc (concat (fst (fetch_document_batches example_env example_connector None None)))
     = [''https://wiki.example.com/wiki/pages/1'', ''https://wiki.example.com/wiki/pages/2'',
        ''https://wiki.example.com/wiki/pages/3'', ''https://wiki.example.com/wiki/download/a'',
        ''https://wiki.example.com/wiki/download/b'']"
  by code_simp

theorem fetch_pages_before_attachments_witness:
  "concat (fst (fetch_document_batches example_env example_connector None None))
     = page_documents example_env example_connector None None
         @ attachment_documents example_env example_connector None None
   \<and> map id_doc (concat (fst (fetch_document_batches example_env example_connector None None)))
     = [''https://wiki.example.com/wiki/pages/1'', ''https://wiki.example.com/wiki/pages/2'',
        ''https://wiki.example.com/wiki/pages/3'', ''https://wiki.example.com/wiki/download/a'',
        ''https://wiki.example.com/wiki/download/b'']"
proof -
  have run: "fetch_document_batches example_env example_connector None None
               = (fst (fetch_document_batches example_env example_connector None None), Inr ())"
    using example_fetch_completes by (simp add: prod_eq_iff)
  from fetch_pages_before_attachments [OF run] example_fetch_ids show ?thesis by simp
qed

subsection \<open>The slim metadata fetch: what is collected\<close>

lemma ebind_InrE:
  assumes "ebind m f = Inr y"
  obtains x where "m = Inr x" "f x = Inr y"
  using assms by (cases m) (simp_all add: ebind_def)

lemma ebind_Inr: "m = Inr x \<Longrightarrow> ebind m f = f x"
  by (simp add: ebind_def)

lemma map_sum_ebind: "map_sum id g (ebind m f) = ebind m (\<lambda>x. map_sum id g (f x))"
  by (cases m) (simp_all add: ebind_def)

text \<open>Collecting onto a longer list only prepends what the list already held.\<close>

lemma slim_attachment_body_prepend:
  "slim_attachment_body env self pr psk a (l @ m)
     = map_sum id ((@) l) (slim_attachment_body env self pr psk a m)"
  by (simp add: slim_attachment_body_def map_sum_ebind Let_def if_distrib [of "map_sum id ((@) l)"]
           cong: if_cong)

lemma efold_prepend:
  assumes "\<And>x m. body x (l @ m) = map_sum id ((@) l) (body x m)"
  shows "efold body xs (l @ m) = map_sum id ((@) l) (efold body xs m)"
proof (induction xs arbitrary: m)
  case Nil
  then show ?case by simp
next
  case (Cons x xs)
  show ?case
  proof (cases "body x m")
    case (Inl e)
    with assms [of x m] show ?thesis by (simp add: ebind_def)
  next
    case (Inr m')
    with assms [of x m] Cons.IH [of m'] show ?thesis by (simp add: ebind_def)
  qed
qed

lemma efold_src_prepend:
  assumes "\<And>x m. body x (l @ m) = map_sum id ((@) l) (body x m)"
  shows "efold_src body src (l @ m) = map_sum id ((@) l) (efold_src body src m)"
  by (cases "efold body (fst src) m"; cases "snd src")
     (simp_all add: efold_src_def efold_prepend [of body l, OF assms] ebind_def)

lemma efold_src_slim_prepend:
  "efold_src (slim_attachment_body env self pr psk) src (l @ m)
     = map_sum id ((@) l) (efold_src (slim_attachment_body env self pr psk) src m)"
  by (rule efold_src_prepend) (rule slim_attachment_body_prepend)

lemma slim_collect_page_prepend:
  "slim_collect_page env self page (l @ m)
     = map_sum id ((@) l) (slim_collect_page env self page m)"
  by (simp add: slim_collect_page_def map_sum_ebind Let_def efold_src_slim_prepend)

lemma slim_collect_page_entries:
  "slim_collect_page env self page l = map_sum id ((@) l) (slim_page_entries env self page)"
  using slim_collect_page_prepend [of env self page l "[]"]
  by (simp add: slim_page_entries_def)

subsection \<open>The slim metadata fetch: batch sizes\<close>

lemma slim_page_body_cases:
  assumes "slim_page_body env self callback page st = (ys, r)"
  obtains
    (raise) e where "slim_collect_page env self page (fst st) = Inl e" "ys = []" "r = Inl e"
  | (keep) l where "slim_collect_page env self page (fst st) = Inr l"
      "\<not> SLIM_DOC_BATCH_SIZE < length l" "ys = []" "r = Inr (l, snd st)"
  | (slice) l where "slim_collect_page env self page (fst st) = Inr l"
      "SLIM_DOC_BATCH_SIZE < length l" "callback = None"
      "ys = [Emit (take SLIM_DOC_BATCH_SIZE l)]" "r = Inr (drop SLIM_DOC_BATCH_SIZE l, snd st)"
  | (go) l cb where "slim_collect_page env self page (fst st) = Inr l"
      "SLIM_DOC_BATCH_SIZE < length l" "callback = Some cb" "\<not> cb (snd st)"
      "ys = [Emit (take SLIM_DOC_BATCH_SIZE l), ShouldStop False,
             Progress ''retrieve_all_slim_documents'' 1]"
      "r = Inr (drop SLIM_DOC_BATCH_SIZE l, snd st + 1)"
  | (stop) l cb where "slim_collect_page env self page (fst st) = Inr l"
      "SLIM_DOC_BATCH_SIZE < length l" "callback = Some cb" "cb (snd st)"
      "ys = [Emit (take SLIM_DOC_BATCH_SIZE l), ShouldStop True]"
      "r = Inl (RuntimeError ''retrieve_all_slim_documents: Stop signal detected'')"
proof (cases "slim_collect_page env self page (fst st)")
  case (Inl e)
  with assms have "ys = []" "r = Inl e"
    by (simp_all add: slim_page_body_def gen_raise_def split: prod.splits)
  with Inl show ?thesis by (rule raise)
next
  case (Inr l)
  show ?thesis
  proof (cases "SLIM_DOC_BATCH_SIZE < length l")
    case False
    with assms Inr have "ys = []" "r = Inr (l, snd st)"
      by (simp_all add: slim_page_body_def gen_return_def split: prod.splits)
    with Inr False show ?thesis by (rule keep)
  next
    case True
    show ?thesis
    proof (cases callback)
      case None
      with assms Inr True have "ys = [Emit (take SLIM_DOC_BATCH_SIZE l)]"
        "r = Inr (drop SLIM_DOC_BATCH_SIZE l, snd st)"
        by (simp_all add: slim_page_body_def Let_def split: prod.splits)
      with Inr True None show ?thesis by (rule slice)
    next
      case (Some cb)
      show ?thesis
      proof (cases "cb (snd st)")
        case False
        with assms Inr True Some have
          "ys = [Emit (take SLIM_DOC_BATCH_SIZE l), ShouldStop False,
                 Progress ''retrieve_all_slim_documents'' 1]"
          "r = Inr (drop SLIM_DOC_BATCH_SIZE l, snd st + 1)"
          by (simp_all add: slim_page_body_def Let_def split: prod.splits)
        with Inr True Some False show ?thesis by (rule go)
      next
        case stp: True
        with assms Inr True Some have
          "ys = [Emit (take SLIM_DOC_BATCH_SIZE l), ShouldStop True]"
          "r = Inl (RuntimeError ''retrieve_all_slim_documents: Stop signal detected'')"
          by (simp_all add: slim_page_body_def Let_def split: prod.splits)
        with Inr True Some stp show ?thesis by (rule stop)
      qed
    qed
  qed
qed

lemma emitted_append: "emitted (xs @ ys) = emitted xs @ emitted ys"
  by (induction xs rule: emitted.induct) simp_all

lemma set_emitted: "b \<in> set (emitted evs) \<longleftrightarrow> Emit b \<in> set evs"
  by (induction evs rule: emitted.induct) auto

lemma slim_page_body_slices:
  assumes "slim_page_body env self callback page st = (ys, r)"
  shows "\<forall>y\<in>set ys. \<forall>b. y = Emit b \<longrightarrow> length b = SLIM_DOC_BATCH_SIZE"
  using assms by (cases rule: slim_page_body_cases) auto

lemma for_in_Inr:
  assumes "for_in src body s = (ys, Inr s')"
  shows "for_each body (fst src) s = (ys, Inr s')"
  using assms
  by (cases "for_each body (fst src) s"; cases "snd (for_each body (fst src) s)"; cases "snd src")
     (auto simp: for_in_def gen_bind_def gen_return_def gen_raise_def)

lemma slim_entries_Cons:
  "slim_entries env self (p # ps)
     = (case slim_page_entries env self p of Inr es \<Rightarrow> es | Inl e \<Rightarrow> []) @ slim_entries env self ps"
  by (simp add: slim_entries_def)

lemma slim_page_body_entries:
  assumes "slim_page_body env self callback page st = (ys, Inr a)"
  shows "\<exists>es. slim_page_entries env self page = Inr es
               \<and> concat (emitted ys) @ fst a = fst st @ es"
proof -
  have coll: "\<exists>es. slim_page_entries env self page = Inr es \<and> l = fst st @ es"
    if "slim_collect_page env self page (fst st) = Inr l" for l
    using that slim_collect_page_entries [of env self page "fst st"]
    by (cases "slim_page_entries env self page") auto
  from assms show ?thesis
  proof (cases rule: slim_page_body_cases)
    case (raise e)
    then show ?thesis by simp
  next
    case (keep l)
    with coll [OF keep(1)] show ?thesis by auto
  next
    case (slice l)
    with coll [OF slice(1)] show ?thesis by auto
  next
    case (go l cb)
    with coll [OF go(1)] show ?thesis by auto
  next
    case (stop l cb)
    then show ?thesis by simp
  qed
qed

text \<open>
  What a loop over pages that does not raise has emitted, followed by what it still
  holds, is what it held at the start followed by the entries of the pages.
\<close>

lemma slim_loop_entries:
  assumes "for_each (slim_page_body env self callback) pages st = (evs, Inr st')"
  shows "concat (emitted evs) @ fst st' = fst st @ slim_entries env self pages
         \<and> (\<forall>p\<in>set pages. \<exists>es. slim_page_entries env self p = Inr es)"
  using assms
proof (induction pages arbitrary: st evs)
  case Nil
  then show ?case by (auto simp: gen_return_def slim_entries_def)
next
  case (Cons p ps)
  from Cons.prems
  have b: "gen_bind (slim_page_body env self callback p st)
             (for_each (slim_page_body env self callback) ps) = (evs, Inr st')" by simp
  from b show ?case
  proof (cases rule: gen_bind_elims)
    case (raise e)
    then show ?thesis by simp
  next
    case (cont ys1 a zs)
    from slim_page_body_entries [OF cont(1)] obtain es where
      es: "slim_page_entries env self p = Inr es" "concat (emitted ys1) @ fst a = fst st @ es"
      by blast
    from Cons.IH [OF cont(2)] have
      ih: "concat (emitted zs) @ fst st' = fst a @ slim_entries env self ps"
      and all: "\<forall>p\<in>set ps. \<exists>es. slim_page_entries env self p = Inr es" by simp_all
    have "concat (emitted evs) @ fst st' = concat (emitted ys1) @ concat (emitted zs) @ fst st'"
      using cont(3) by (simp add: emitted_append)
    also have "\<dots> = (concat (emitted ys1) @ fst a) @ slim_entries env self ps"
      using ih by simp
    also have "\<dots> = fst st @ slim_entries env self (p # ps)"
      using es by (simp add: slim_entries_Cons)
    finally show ?thesis using es(1) all by simp
  qed
qed

lemma slim_loop_slices:
  assumes "for_each (slim_page_body env self callback) pages st = (evs, r)"
  shows "\<forall>b\<in>set (emitted evs). length b = SLIM_DOC_BATCH_SIZE"
proof -
  from for_each_invariant [of "\<lambda>s. True" "slim_page_body env self callback"
          "\<lambda>y. \<forall>b. y = Emit b \<longrightarrow> length b = SLIM_DOC_BATCH_SIZE", OF _ _ assms]
       slim_page_body_slices [of env self callback]
  have "\<forall>y\<in>set evs. \<forall>b. y = Emit b \<longrightarrow> length b = SLIM_DOC_BATCH_SIZE" by blast
  then show ?thesis by (simp add: set_emitted)
qed

subsection \<open>The slim metadata fetch: the final emission\<close>

text \<open>
  C9. A slim fetch that ends without an exception ends by emitting the accumulated list
  unconditionally: the events are the full-size batches cut so far, with their heartbeat
  calls, followed by one last batch, and the batches before the last followed by the last
  are exactly the entries collected for the pages of the query, so the last batch is all of
  what the earlier ones left. When the page query matches no record, the only event is the
  emission of the empty list.
\<close>

theorem slim_final_emission:
  assumes "retrieve_all_slim_documents env self start end_arg callback = (evs, Inr ())"
  shows "\<exists>pre l. evs = pre @ [Emit l]
           \<and> concat (emitted pre) @ l = slim_entries env self (slim_page_records self)
           \<and> (\<forall>b\<in>set (emitted pre). length b = SLIM_DOC_BATCH_SIZE)
           \<and> (slim_page_records self = [] \<longrightarrow> evs = [Emit []])"
proof (cases "confluence_client self")
  case (Inl e)
  with assms show ?thesis by (simp add: retrieve_all_slim_documents_def gen_raise_def)
next
  case (Inr c)
  let ?src = "cql_paginate_all_expansions c (base_cql_page_query self @ cql_label_filter self)
                (Some (join '','' RESTRICTIONS_EXPANSION_FIELDS)) (Some (int SLIM_DOC_BATCH_SIZE))"
  let ?loop = "for_in ?src (slim_page_body env self callback) ([], 0)"
  from assms Inr have g: "gen_bind ?loop (\<lambda>st. ([Emit (fst st)], Inr ())) = (evs, Inr ())"
    by (simp add: retrieve_all_slim_documents_def Let_def)
  from Inr have recs: "slim_page_records self = fst ?src" by (simp add: slim_page_records_def)
  from g show ?thesis
  proof (cases rule: gen_bind_elims)
    case (raise e)
    then show ?thesis by simp
  next
    case (cont ys1 st zs)
    then have evs: "evs = ys1 @ [Emit (fst st)]" by simp
    from for_in_Inr [OF cont(1)]
    have loop: "for_each (slim_page_body env self callback) (fst ?src) ([], 0) = (ys1, Inr st)" .
    from slim_loop_entries [OF loop] recs
    have all: "concat (emitted ys1) @ fst st = slim_entries env self (slim_page_records self)"
      by simp
    from slim_loop_slices [OF loop]
    have sl: "\<forall>b\<in>set (emitted ys1). length b = SLIM_DOC_BATCH_SIZE" .
    have "fst ?src = [] \<Longrightarrow> ys1 = [] \<and> fst st = []"
      using loop by (auto simp: gen_return_def)
    with recs evs have em: "slim_page_records self = [] \<longrightarrow> evs = [Emit []]" by simp
    from evs all sl em show ?thesis by blast
  qed
qed

lemma example_slim_events:
  "length (fst (retrieve_all_slim_documents example_env example_connector None None None)) = 1"
  by code_simp

lemma example_slim_completes:
  "snd (retrieve_all_slim_documents example_env example_connector None None None) = Inr ()"
  by code_simp

lemma example_slim_entries:
  "length (slim_entries example_env example_connector (slim_page_records example_connector)) = 5"
  by code_simp

lemma empty_fetch_completes:
  "snd (retrieve_all_slim_documents example_env empty_connector None None None) = Inr ()"
  by code_simp

lemma empty_page_records: "slim_page_records empty_connector = []"
  by code_simp

theorem slim_final_emission_witness:
  "fst (retrieve_all_slim_documents example_env example_connector None None None)
     = [Emit (slim_entries example_env example_connector (slim_page_records example_connector))]
   \<and> length (slim_entries example_env example_connector (slim_page_records example_connector)) = 5
   \<and> fst (retrieve_all_slim_documents example_env empty_connector None None None) = [Emit []]"
proof -
  let ?R = "retrieve_all_slim_documents example_env example_connector None None None"
  let ?E = "retrieve_all_slim_documents example_env empty_connector None None None"
  have run: "?R = (fst ?R, Inr ())"
    using example_slim_completes by (simp add: prod_eq_iff)
  from slim_final_emission [OF run] obtain pre l where
    p: "fst ?R = pre @ [Emit l]"
       "concat (emitted pre) @ l
          = slim_entries example_env example_connector (slim_page_records example_connector)"
    by blast
  from p(1) example_slim_events have "pre = []" by simp
  with p have 1: "fst ?R = [Emit (slim_entries example_env example_connector
                                     (slim_page_records example_connector))]" by simp
  have run': "?E = (fst ?E, Inr ())"
    using empty_fetch_completes by (simp add: prod_eq_iff)
  from slim_final_emission [OF run'] empty_page_records have 2: "fst ?E = [Emit []]" by auto
  from 1 example_slim_entries 2 show ?thesis by simp
qed

subsection \<open>The slim metadata fetch: what an attachment inherits\<close>

lemma slim_attachment_body_skip:
  assumes "slim_attachment_body env self pr psk a l = Inr l'" "\<not> indexable env a"
  shows "l' = l"
  using assms unfolding slim_attachment_body_def indexable_def
  by (elim ebind_InrE) (simp split: if_splits)

lemma slim_attachment_body_entry:
  assumes "slim_attachment_body env self pr psk a l = Inr l'" "indexable env a"
  shows "\<exists>sd own own_key. l' = l @ [sd]
           \<and> record_restrictions a = Inr own \<and> record_space_key a = Inr own_key
           \<and> perm_sync_data sd
               = JDict [(''restrictions'', inherited own (py_or pr (JDict []))),
                        (''space_key'', inherited own_key psk)]"
proof -
  from assms(2) have v: "validate_attachment_filetype env a = Inr True"
    by (simp add: indexable_def)
  from assms(1) have
    "ebind (get_default a ''restrictions'' JNone) (\<lambda>own.
       ebind (get_default a ''space'' (JDict [])) (\<lambda>sp.
       ebind (get_default sp ''key'' JNone) (\<lambda>own_key.
       ebind (getitem a ''_links'') (\<lambda>links.
       ebind (getitem links ''webui'') (\<lambda>webui.
       ebind (build_confluence_document_id env (wiki_base self) webui (is_cloud self)) (\<lambda>i.
         Inr (l @ [\<lparr> id_slim = i,
                     perm_sync_data =
                       attachment_perm_sync_data (if \<not> truthy own then pr else own)
                         (if \<not> truthy own_key then psk else own_key) \<rparr>]))))))) = Inr l'"
    by (simp add: slim_attachment_body_def v ebind_Inr Let_def)
  then obtain own sp own_key i where
    o: "get_default a ''restrictions'' JNone = Inr own"
       "get_default a ''space'' (JDict []) = Inr sp"
       "get_default sp ''key'' JNone = Inr own_key"
       "l' = l @ [\<lparr> id_slim = i,
                    perm_sync_data =
                      attachment_perm_sync_data (if \<not> truthy own then pr else own)
                        (if \<not> truthy own_key then psk else own_key) \<rparr>]"
    by (elim ebind_InrE) auto
  have "attachment_perm_sync_data (if \<not> truthy own then pr else own)
          (if \<not> truthy own_key then psk else own_key)
        = JDict [(''restrictions'', inherited own (py_or pr (JDict []))),
                 (''space_key'', inherited own_key psk)]"
    by (simp add: attachment_perm_sync_data_def inherited_def py_or_def)
  with o show ?thesis
    by (simp add: record_restrictions_def record_space_key_def ebind_Inr)
qed

text \<open>
  A loop that appends one related item for each element it keeps and nothing for the
  others appends, in order, items related to the elements kept.
\<close>

lemma efold_filter_all2:
  assumes skip: "\<And>x l l'. body x l = Inr l' \<Longrightarrow> \<not> keep x \<Longrightarrow> l' = l"
      and entry: "\<And>x l l'. body x l = Inr l' \<Longrightarrow> keep x \<Longrightarrow> \<exists>y. l' = l @ [y] \<and> R x y"
  shows "efold body xs l = Inr l' \<Longrightarrow> \<exists>ys. l' = l @ ys \<and> list_all2 R (filter keep xs) ys"
proof (induction xs arbitrary: l)
  case Nil
  then show ?case by simp
next
  case (Cons x xs)
  from Cons.prems obtain l1 where
    b: "body x l = Inr l1" and r: "efold body xs l1 = Inr l'"
    by (auto elim: ebind_InrE)
  from Cons.IH [OF r] obtain ys where
    ys: "l' = l1 @ ys" "list_all2 R (filter keep xs) ys" by blast
  show ?case
  proof (cases "keep x")
    case True
    from entry [of x l l1] b True obtain y where "l1 = l @ [y]" "R x y" by blast
    with ys True have "l' = l @ (y # ys) \<and> list_all2 R (filter keep (x # xs)) (y # ys)"
      by simp
    then show ?thesis by blast
  next
    case False
    from skip [of x l l1] b False have "l1 = l" by blast
    with ys False show ?thesis by simp
  qed
qed

lemma efold_src_Inr:
  assumes "efold_src body src s = Inr s'"
  shows "efold body (fst src) s = Inr s'"
  using assms by (cases "snd src") (auto simp: efold_src_def elim!: ebind_InrE)

lemma slim_page_entries_ok:
  assumes "slim_page_entries env self page = Inr es"
  shows "page_entries_ok env self page es"
proof -
  let ?src = "\<lambda>c page_id. cql_paginate_all_expansions c (construct_attachment_query env self page_id)
                (Some (join '','' RESTRICTIONS_EXPANSION_FIELDS)) (Some (int SLIM_DOC_BATCH_SIZE))"
  from assms have
    "\<exists>pr sp psk anc i page_id c.
       get_default page ''restrictions'' JNone = Inr pr
       \<and> get_default page ''space'' (JDict []) = Inr sp
       \<and> get_default sp ''key'' JNone = Inr psk
       \<and> getitem page ''id'' = Inr page_id
       \<and> confluence_client self = Inr c
       \<and> efold_src (slim_attachment_body env self pr psk) (?src c page_id)
            [\<lparr> id_slim = i, perm_sync_data = page_perm_sync_data pr psk anc \<rparr>] = Inr es"
    unfolding slim_page_entries_def slim_collect_page_def Let_def
    by (elim ebind_InrE) auto
  then obtain pr sp psk anc i page_id c where
    o: "get_default page ''restrictions'' JNone = Inr pr"
       "get_default page ''space'' (JDict []) = Inr sp"
       "get_default sp ''key'' JNone = Inr psk"
       "getitem page ''id'' = Inr page_id"
       "confluence_client self = Inr c"
       "efold_src (slim_attachment_body env self pr psk) (?src c page_id)
            [\<lparr> id_slim = i, perm_sync_data = page_perm_sync_data pr psk anc \<rparr>] = Inr es"
    by blast
  let ?pe = "\<lparr> id_slim = i, perm_sync_data = page_perm_sync_data pr psk anc \<rparr>"
  have pg: "record_restrictions page = Inr pr" "record_space_key page = Inr psk"
    using o(1-3) by (simp_all add: record_restrictions_def record_space_key_def ebind_Inr)
  have recs: "slim_attachment_records env self page = fst (?src c page_id)"
    using o(4,5) by (simp add: slim_attachment_records_def)
  have R: "\<exists>y. l' = l @ [y] \<and> attachment_entry_ok page a y"
    if "slim_attachment_body env self pr psk a l = Inr l'" "indexable env a" for a l l'
    using slim_attachment_body_entry [OF that] pg by (auto simp: attachment_entry_ok_def)
  from efold_filter_all2 [of "slim_attachment_body env self pr psk" "indexable env"
          "attachment_entry_ok page" "fst (?src c page_id)" "[?pe]" es]
       slim_attachment_body_skip [of env self pr psk] R efold_src_Inr [OF o(6)]
  obtain ys where
    ys: "es = [?pe] @ ys" "list_all2 (attachment_entry_ok page)
                             (filter (indexable env) (fst (?src c page_id))) ys"
    by blast
  have "page_entry_ok page ?pe"
    using pg by (simp add: page_entry_ok_def page_perm_sync_data_def)
  with ys recs show ?thesis by (simp add: page_entries_ok_def)
qed

lemma for_in_events: "fst (for_in src body s) = fst (for_each body (fst src) s)"
  by (cases "for_each body (fst src) s"; cases "snd (for_each body (fst src) s)"; cases "snd src")
     (auto simp: for_in_def gen_bind_def gen_return_def gen_raise_def)

text \<open>
  Whatever way a loop over pages ends, what it has emitted is an initial part of what it
  held at the start followed by the entries of the pages.
\<close>

lemma slim_loop_prefix:
  assumes "for_each (slim_page_body env self callback) pages st = (evs, r)"
  shows "prefix (concat (emitted evs)) (fst st @ slim_entries env self pages)"
  using assms
proof (induction pages arbitrary: st evs)
  case Nil
  then show ?case by (auto simp: gen_return_def)
next
  case (Cons p ps)
  from Cons.prems
  have b: "gen_bind (slim_page_body env self callback p st)
             (for_each (slim_page_body env self callback) ps) = (evs, r)" by simp
  from b show ?case
  proof (cases rule: gen_bind_elims)
    case (raise e)
    from raise(1) show ?thesis
    proof (cases rule: slim_page_body_cases)
      case (stop l cb)
      from stop(1) slim_collect_page_entries [of env self p "fst st"]
      obtain es where es: "slim_page_entries env self p = Inr es" "l = fst st @ es"
        by (cases "slim_page_entries env self p") auto
      have "prefix (take SLIM_DOC_BATCH_SIZE l) (l @ slim_entries env self ps)"
        by (rule prefix_order.trans [OF take_is_prefix]) simp
      with es stop(5) show ?thesis by (simp add: slim_entries_Cons)
    qed simp_all
  next
    case (cont ys1 a zs)
    from slim_page_body_entries [OF cont(1)] obtain es where
      es: "slim_page_entries env self p = Inr es" "concat (emitted ys1) @ fst a = fst st @ es"
      by blast
    from Cons.IH [OF cont(2)]
    have "prefix (concat (emitted ys1) @ concat (emitted zs))
                 (concat (emitted ys1) @ fst a @ slim_entries env self ps)" by simp
    also have "concat (emitted ys1) @ fst a @ slim_entries env self ps
                 = fst st @ slim_entries env self (p # ps)"
      using es by (simp add: slim_entries_Cons)
    finally show ?thesis using cont(3) by (simp add: emitted_append)
  qed
qed

lemma slim_fetch_entries:
  assumes "retrieve_all_slim_documents env self start end_arg callback = (evs, r)"
  shows "prefix (concat (emitted evs)) (slim_entries env self (slim_page_records self))"
    and "r = Inr () \<Longrightarrow> concat (emitted evs) = slim_entries env self (slim_page_records self)"
proof -
  have "prefix (concat (emitted evs)) (slim_entries env self (slim_page_records self))
        \<and> (r = Inr () \<longrightarrow> concat (emitted evs) = slim_entries env self (slim_page_records self))"
  proof (cases "confluence_client self")
    case (Inl e)
    with assms show ?thesis by (auto simp: retrieve_all_slim_documents_def gen_raise_def)
  next
    case (Inr c)
    let ?src = "cql_paginate_all_expansions c (base_cql_page_query self @ cql_label_filter self)
                  (Some (join '','' RESTRICTIONS_EXPANSION_FIELDS)) (Some (int SLIM_DOC_BATCH_SIZE))"
    let ?body = "slim_page_body env self callback"
    from assms Inr
    have g: "gen_bind (for_in ?src ?body ([], 0)) (\<lambda>st. ([Emit (fst st)], Inr ())) = (evs, r)"
      by (simp add: retrieve_all_slim_documents_def Let_def)
    from Inr have recs: "slim_page_records self = fst ?src" by (simp add: slim_page_records_def)
    from g show ?thesis
    proof (cases rule: gen_bind_elims)
      case (raise e)
      then have "fst (for_each ?body (fst ?src) ([], 0)) = evs"
        using for_in_events [of ?src ?body "([], 0)"] by simp
      then have "for_each ?body (fst ?src) ([], 0) = (evs, snd (for_each ?body (fst ?src) ([], 0)))"
        by (simp add: prod_eq_iff)
      from slim_loop_prefix [OF this] recs raise(2) show ?thesis by simp
    next
      case (cont ys1 st zs)
      then have evs: "evs = ys1 @ [Emit (fst st)]" by auto
      from slim_loop_entries [OF for_in_Inr [OF cont(1)]] recs
      have "concat (emitted ys1) @ fst st = slim_entries env self (slim_page_records self)"
        by simp
      with evs show ?thesis by (simp add: emitted_append)
    qed
  qed
  then show "prefix (concat (emitted evs)) (slim_entries env self (slim_page_records self))"
    and "r = Inr () \<Longrightarrow> concat (emitted evs) = slim_entries env self (slim_page_records self)"
    by simp_all
qed

text \<open>
  C5, as the code has it. Whatever way a slim fetch ends, the entries it has emitted are
  an initial part of the entries collected for the page records of the query, page by
  page, and all of them when the fetch ends without an exception. The entries collected
  for a page are the page's own entry followed by one entry for each indexable attachment
  record of the page, in order, and the payload of an attachment's entry holds exactly a
  \<open>restrictions\<close> and a \<open>space_key\<close>: the attachment record's own restrictions when it
  has some and otherwise the parent page record's (an empty dictionary when the page has
  none), and, independently, the attachment record's own space key when it names one and
  otherwise the parent page record's. So an attachment without restrictions of its own is
  emitted with exactly the parent page's restrictions, and with the parent page's space
  key only when its record names no space key.
\<close>

theorem slim_attachments_inherit:
  assumes "retrieve_all_slim_documents env self start end_arg callback = (evs, r)"
  shows "prefix (concat (emitted evs)) (slim_entries env self (slim_page_records self))
         \<and> (r = Inr () \<longrightarrow>
              concat (emitted evs) = slim_entries env self (slim_page_records self))
         \<and> (\<forall>page\<in>set (slim_page_records self). \<forall>es.
              slim_page_entries env self page = Inr es \<longrightarrow> page_entries_ok env self page es)"
  using slim_fetch_entries [OF assms] slim_page_entries_ok [of env self] by blast

lemma foreign_fetch_completes:
  "snd (retrieve_all_slim_documents example_env foreign_connector None None None) = Inr ()"
  by code_simp

lemma foreign_page_records: "slim_page_records foreign_connector = [example_page ''1'']"
  by code_simp

lemma foreign_page_collected:
  "case slim_page_entries example_env foreign_connector (example_page ''1'') of
     Inr es \<Rightarrow> length es = 3 | Inl e \<Rightarrow> False"
  by code_simp

theorem slim_attachments_inherit_witness:
  "page_entries_ok example_env foreign_connector (example_page ''1'')
     (concat (emitted (fst (retrieve_all_slim_documents example_env foreign_connector
                              None None None))))
   \<and> length (concat (emitted (fst (retrieve_all_slim_documents example_env foreign_connector
                                     None None None)))) = 3
   \<and> filter (indexable example_env)
        (slim_attachment_records example_env foreign_connector (example_page ''1''))
      = [bare_attachment, foreign_attachment]"
proof -
  let ?R = "retrieve_all_slim_documents example_env foreign_connector None None None"
  let ?p = "example_page ''1''"
  have run: "?R = (fst ?R, Inr ())"
    using foreign_fetch_completes by (simp add: prod_eq_iff)
  from foreign_page_collected obtain es where
    es: "slim_page_entries example_env foreign_connector ?p = Inr es" "length es = 3"
    by (cases "slim_page_entries example_env foreign_connector ?p") simp_all
  from slim_attachments_inherit [OF run] foreign_page_records es
  have "concat (emitted (fst ?R)) = es" "page_entries_ok example_env foreign_connector ?p es"
    by (simp_all add: slim_entries_def)
  moreover have "filter (indexable example_env)
        (slim_attachment_records example_env foreign_connector ?p)
      = [bare_attachment, foreign_attachment]"
    by code_simp
  ultimately show ?thesis using es(2) by simp
qed

text \<open>
  The claim as first stated fails on a page of space ENG with two attachments that carry
  no restrictions: one names no space and takes the page's space key, the other names the
  space OPS and keeps it, so that its payload does not hold the parent page's space key.
\<close>

theorem slim_foreign_space_key:
  "slim_page_records foreign_connector = [example_page ''1'']
   \<and> slim_attachment_records example_env foreign_connector (example_page ''1'')
       = [bare_attachment, foreign_attachment]
   \<and> record_restrictions foreign_attachment = Inr JNone
   \<and> record_space_key (example_page ''1'') = Inr (JStr ''ENG'')
   \<and> retrieve_all_slim_documents example_env foreign_connector None None None
       = ([Emit [\<lparr> id_slim = ''https://wiki.example.com/wiki/pages/1'',
                   perm_sync_data =
                     JDict [(''restrictions'', JDict [(''read'', JStr ''alice'')]),
                            (''space_key'', JStr ''ENG''), (''ancestors'', JList [])] \<rparr>,
                 \<lparr> id_slim = ''https://wiki.example.com/wiki/download/c'',
                   perm_sync_data =
                     JDict [(''restrictions'', JDict [(''read'', JStr ''alice'')]),
                            (''space_key'', JStr ''ENG'')] \<rparr>,
                 \<lparr> id_slim = ''https://wiki.example.com/wiki/download/f'',
                   perm_sync_data =
                     JDict [(''restrictions'', JDict [(''read'', JStr ''alice'')]),
                            (''space_key'', JStr ''OPS'')] \<rparr>]], Inr ())"
  by code_simp

subsection \<open>The slim metadata fetch: the size of the last batch\<close>

lemma slim_page_body_entries_eq:
  assumes "slim_page_entries env self page = Inr es"
  shows "slim_page_body env self callback page (l, calls) =
          (if SLIM_DOC_BATCH_SIZE < length (l @ es) then
             (case callback of
                None \<Rightarrow> ([Emit (take SLIM_DOC_BATCH_SIZE (l @ es))],
                         Inr (drop SLIM_DOC_BATCH_SIZE (l @ es), calls))
              | Some cb \<Rightarrow>
                  (if cb calls then
                     ([Emit (take SLIM_DOC_BATCH_SIZE (l @ es)), ShouldStop True],
                      Inl (RuntimeError ''retrieve_all_slim_documents: Stop signal detected''))
                   else
                     ([Emit (take SLIM_DOC_BATCH_SIZE (l @ es)), ShouldStop False,
                       Progress ''retrieve_all_slim_documents'' 1],
                      Inr (drop SLIM_DOC_BATCH_SIZE (l @ es), calls + 1))))
           else ([], Inr (l @ es, calls)))"
proof -
  have "slim_collect_page env self page l = Inr (l @ es)"
    using slim_collect_page_entries [of env self page l] assms by simp
  then show ?thesis
    by (cases callback) (simp_all add: slim_page_body_def Let_def gen_return_def)
qed

lemma efold_replicate:
  assumes "\<And>l. body x l = Inr (l @ [y])"
  shows "efold body (replicate n x) l = Inr (l @ replicate n y)"
proof (induction n arbitrary: l)
  case 0
  then show ?case by simp
next
  case (Suc n)
  then show ?case by (simp add: assms ebind_def replicate_app_Cons_same)
qed

lemma bulk_attachment_entry:
  "slim_attachment_body example_env (bulk_connector n) pr psk (example_attachment ''a'') l
     = Inr (l @ [\<lparr> id_slim = ''https://wiki.example.com/wiki/download/a'',
                    perm_sync_data = attachment_perm_sync_data pr (JStr ''ENG'') \<rparr>])"
  by (simp add: slim_attachment_body_def example_env_def bulk_connector_def
        example_connector_def example_attachment_def example_build_id_def ebind_def)

lemma bulk_attachments:
  "efold (slim_attachment_body example_env (bulk_connector n) pr psk)
     (replicate m (example_attachment ''a'')) l
     = Inr (l @ replicate m \<lparr> id_slim = ''https://wiki.example.com/wiki/download/a'',
                               perm_sync_data = attachment_perm_sync_data pr (JStr ''ENG'') \<rparr>)"
  by (rule efold_replicate) (rule bulk_attachment_entry)

lemma bulk_attachment_query:
  "construct_attachment_query example_env (bulk_connector n) i \<noteq> ''type=page''"
  by (simp add: construct_attachment_query_def)

lemma bulk_page_entries:
  "\<exists>es. slim_page_entries example_env (bulk_connector n) (example_page i) = Inr es
        \<and> length es = Suc n"
proof -
  have c: "confluence_client (bulk_connector n)
             = Inr (example_client \<lparr> cql_paginate_all_expansions := bulk_retrieval n \<rparr>)"
    by (simp add: confluence_client_def bulk_connector_def)
  have b: "build_confluence_document_id example_env = example_build_id"
    by (simp add: example_env_def)
  have w: "wiki_base (bulk_connector n) = ''https://wiki.example.com''"
    "is_cloud (bulk_connector n) = True"
    by (simp_all add: bulk_connector_def example_connector_def)
  show ?thesis
    by (simp add: slim_page_entries_def slim_collect_page_def Let_def example_page_def
          ebind_def c b w example_build_id_def efold_src_def bulk_retrieval_def
          bulk_attachment_query bulk_attachments)
qed

lemma bulk_page_records:
  "slim_page_records (bulk_connector n) = [example_page ''1'', example_page ''2'']"
  by (simp add: slim_page_records_def confluence_client_def bulk_connector_def
        bulk_retrieval_def example_connector_def)

lemma bulk_fetch:
  "\<exists>b1 b2 b3. retrieve_all_slim_documents example_env (bulk_connector 7500) None None None
       = ([Emit b1, Emit b2, Emit b3], Inr ())
     \<and> length b1 = 5000 \<and> length b2 = 5000 \<and> length b3 = 5002"
proof -
  let ?self = "bulk_connector 7500"
  from bulk_page_entries [of 7500 "''1''"] obtain es1 where
    es1: "slim_page_entries example_env ?self (example_page ''1'') = Inr es1" "length es1 = 7501"
    by auto
  from bulk_page_entries [of 7500 "''2''"] obtain es2 where
    es2: "slim_page_entries example_env ?self (example_page ''2'') = Inr es2" "length es2 = 7501"
    by auto
  have c: "confluence_client ?self
             = Inr (example_client \<lparr> cql_paginate_all_expansions := bulk_retrieval 7500 \<rparr>)"
    by (simp add: confluence_client_def bulk_connector_def)
  have q: "base_cql_page_query ?self @ cql_label_filter ?self = ''type=page''"
    by (simp add: bulk_connector_def example_connector_def)
  have "retrieve_all_slim_documents example_env ?self None None None
          = ([Emit (take 5000 es1), Emit (take 5000 (drop 5000 es1 @ es2)),
              Emit (drop 5000 (drop 5000 es1 @ es2))], Inr ())"
    unfolding retrieve_all_slim_documents_def Let_def c q
    by (simp add: for_in_def bulk_retrieval_def gen_bind_def gen_return_def
          slim_page_body_entries_eq [OF es1(1)] slim_page_body_entries_eq [OF es2(1)]
          es1(2) es2(2) SLIM_DOC_BATCH_SIZE_def)
  with es1(2) es2(2) show ?thesis by simp
qed

text \<open>
  C7. The batches are cut at the fixed constant 5000 whatever the configured batch size,
  but at most one slice is cut after each page, so the list that remains can grow beyond
  the constant and the unconditional last emission hands it over whole. On a wiki of two
  pages with 7500 indexable attachments each, the fetch emits two batches of 5000 and a
  last batch of 5002 entries.
\<close>

theorem slim_oversized_last_batch:
  "map length (emitted (fst (retrieve_all_slim_documents example_env (bulk_connector 7500)
                               None None None))) = [5000, 5000, 5002]
   \<and> snd (retrieve_all_slim_documents example_env (bulk_connector 7500) None None None) = Inr ()
   \<and> SLIM_DOC_BATCH_SIZE = 5000
   \<and> batch_size (bulk_connector 7500) = 2"
  using bulk_fetch
  by (auto simp: SLIM_DOC_BATCH_SIZE_def bulk_connector_def example_connector_def)

subsection \<open>The slim metadata fetch: the heartbeat\<close>

lemma checked_slices_length: "checked_slices cb n evs \<Longrightarrow> 3 dvd length evs"
  by (induction cb n evs rule: checked_slices.induct) (simp_all, presburger)

lemma slim_loop_checked:
  assumes "for_each (slim_page_body env self (Some cb)) pages st = (evs, r)"
  shows "(\<exists>st'. r = Inr st' \<and> checked_slices cb (snd st) evs
                \<and> snd st' = snd st + length evs div 3)
         \<or> (\<exists>pre b. evs = pre @ [Emit b, ShouldStop True]
                \<and> checked_slices cb (snd st) pre \<and> length b = SLIM_DOC_BATCH_SIZE
                \<and> cb (snd st + length pre div 3)
                \<and> r = Inl (RuntimeError ''retrieve_all_slim_documents: Stop signal detected''))
         \<or> (\<exists>e. r = Inl e \<and> checked_slices cb (snd st) evs)"
  using assms
proof (induction pages arbitrary: st evs r)
  case Nil
  then have "evs = []" "r = Inr st" by (simp_all add: gen_return_def)
  then show ?case by simp
next
  case (Cons p ps)
  let ?stop = "RuntimeError ''retrieve_all_slim_documents: Stop signal detected''"
  from Cons.prems
  have b: "gen_bind (slim_page_body env self (Some cb) p st)
             (for_each (slim_page_body env self (Some cb)) ps) = (evs, r)" by simp
  from b show ?case
  proof (cases rule: gen_bind_elims)
    case (raise e)
    from raise(1) show ?thesis
    proof (cases rule: slim_page_body_cases)
      case (raise e')
      with \<open>r = Inl e\<close> show ?thesis by simp
    next
      case (stop l cb')
      then have "evs = [] @ [Emit (take SLIM_DOC_BATCH_SIZE l), ShouldStop True]"
        "checked_slices cb (snd st) []" "length (take SLIM_DOC_BATCH_SIZE l) = SLIM_DOC_BATCH_SIZE"
        "cb (snd st + length ([] :: slim_event list) div 3)" "r = Inl ?stop"
        using \<open>r = Inl e\<close> by simp_all
      then show ?thesis by blast
    qed simp_all
  next
    case (cont ys1 a zs)
    from cont(1) show ?thesis
    proof (cases rule: slim_page_body_cases)
      case (keep l)
      with Cons.IH [OF cont(2)] cont(3) show ?thesis by simp
    next
      case (go l cb')
      then have ys1: "ys1 = [Emit (take SLIM_DOC_BATCH_SIZE l), ShouldStop False,
                             Progress ''retrieve_all_slim_documents'' 1]"
        and a: "snd a = Suc (snd st)" and no: "\<not> cb (snd st)"
        and len: "length (take SLIM_DOC_BATCH_SIZE l) = SLIM_DOC_BATCH_SIZE"
        by simp_all
      have pre: "checked_slices cb (snd st) (ys1 @ xs) = checked_slices cb (Suc (snd st)) xs"
        "length (ys1 @ xs) div 3 = Suc (length xs div 3)" for xs
        using ys1 no len by simp_all
      from Cons.IH [OF cont(2)] consider
        (completes) st' where "r = Inr st'" "checked_slices cb (snd a) zs"
            "snd st' = snd a + length zs div 3"
      | (halts) pre b where "zs = pre @ [Emit b, ShouldStop True]"
            "checked_slices cb (snd a) pre" "length b = SLIM_DOC_BATCH_SIZE"
            "cb (snd a + length pre div 3)" "r = Inl ?stop"
      | (fails) e where "r = Inl e" "checked_slices cb (snd a) zs"
        by blast
      then show ?thesis
      proof cases
        case completes
        with a pre [of zs] cont(3) show ?thesis by simp
      next
        case halts
        with a pre [of pre] cont(3)
        have "evs = (ys1 @ pre) @ [Emit b, ShouldStop True]"
          "checked_slices cb (snd st) (ys1 @ pre)" "length b = SLIM_DOC_BATCH_SIZE"
          "cb (snd st + length (ys1 @ pre) div 3)" "r = Inl ?stop"
          by simp_all
        then show ?thesis by blast
      next
        case fails
        with a pre [of zs] cont(3) show ?thesis by simp
      qed
    qed simp_all
  qed
qed

text \<open>
  C8, as the code has it. With a heartbeat, the stop check is made once after each
  full-size batch cut from the accumulated list, and nowhere else: a page after which the
  list does not exceed 5000 entries is processed without a check. As long as the answers
  are not to stop, each such batch is followed by the check and the progress report; the
  first answer to stop ends the fetch at once with the stop-signal error, the check being
  the last event. So a run is one of three: it completes, its events being checked batches
  followed by the last emission; or it stops on a check, its events being checked batches
  followed by a full-size batch and the check that answered to stop; or it fails on
  another exception after checked batches only.
\<close>

theorem slim_stop_checks:
  assumes "retrieve_all_slim_documents env self start end_arg (Some cb) = (evs, r)"
  shows "(\<exists>pre l. evs = pre @ [Emit l] \<and> checked_slices cb 0 pre \<and> r = Inr ())
         \<or> (\<exists>pre b. evs = pre @ [Emit b, ShouldStop True]
                \<and> checked_slices cb 0 pre \<and> length b = SLIM_DOC_BATCH_SIZE
                \<and> cb (length pre div 3)
                \<and> r = Inl (RuntimeError ''retrieve_all_slim_documents: Stop signal detected''))
         \<or> (\<exists>e. r = Inl e \<and> checked_slices cb 0 evs)"
proof (cases "confluence_client self")
  case (Inl e)
  with assms have "evs = []" "r = Inl e"
    by (simp_all add: retrieve_all_slim_documents_def gen_raise_def)
  then show ?thesis by simp
next
  case (Inr c)
  let ?src = "cql_paginate_all_expansions c (base_cql_page_query self @ cql_label_filter self)
                (Some (join '','' RESTRICTIONS_EXPANSION_FIELDS)) (Some (int SLIM_DOC_BATCH_SIZE))"
  let ?body = "slim_page_body env self (Some cb)"
  obtain ys0 r0 where loop: "for_each ?body (fst ?src) ([], 0) = (ys0, r0)"
    by (cases "for_each ?body (fst ?src) ([], 0)") auto
  note shape = slim_loop_checked [OF loop]
  from assms Inr
  have g: "gen_bind (for_in ?src ?body ([], 0)) (\<lambda>st. ([Emit (fst st)], Inr ())) = (evs, r)"
    by (simp add: retrieve_all_slim_documents_def Let_def)
  from g show ?thesis
  proof (cases rule: gen_bind_elims)
    case (raise e)
    from raise(1) have f: "gen_bind (for_each ?body (fst ?src) ([], 0))
             (\<lambda>s'. case snd ?src of None \<Rightarrow> gen_return s' | Some e \<Rightarrow> gen_raise e)
           = (evs, Inl e)" by (simp add: for_in_def)
    from f show ?thesis
    proof (cases rule: gen_bind_elims)
      case (raise e')
      with loop have "ys0 = evs" "r0 = Inl e" by simp_all
      with shape \<open>r = Inl e\<close> show ?thesis by simp
    next
      case (cont ys1 a zs)
      with loop have "ys0 = ys1" "r0 = Inr a" by simp_all
      moreover from cont(2) have "zs = []"
        by (cases "snd ?src") (simp_all add: gen_return_def gen_raise_def)
      ultimately show ?thesis using shape cont(3) \<open>r = Inl e\<close> by simp
    qed
  next
    case (cont ys1 st zs)
    then have evs: "evs = ys1 @ [Emit (fst st)]" "r = Inr ()" by auto
    from for_in_Inr [OF cont(1)] loop have "ys0 = ys1" "r0 = Inr st" by simp_all
    with shape have "checked_slices cb 0 ys1" by simp
    with evs show ?thesis by blast
  qed
qed

lemma bulk_fetch_stopped:
  "\<exists>b1 b2. retrieve_all_slim_documents example_env (bulk_connector 7500) None None
               (Some stop_second)
       = ([Emit b1, ShouldStop False, Progress ''retrieve_all_slim_documents'' 1,
           Emit b2, ShouldStop True],
          Inl (RuntimeError ''retrieve_all_slim_documents: Stop signal detected''))
     \<and> length b1 = 5000 \<and> length b2 = 5000"
proof -
  let ?self = "bulk_connector 7500"
  from bulk_page_entries [of 7500 "''1''"] obtain es1 where
    es1: "slim_page_entries example_env ?self (example_page ''1'') = Inr es1" "length es1 = 7501"
    by auto
  from bulk_page_entries [of 7500 "''2''"] obtain es2 where
    es2: "slim_page_entries example_env ?self (example_page ''2'') = Inr es2" "length es2 = 7501"
    by auto
  have c: "confluence_client ?self
             = Inr (example_client \<lparr> cql_paginate_all_expansions := bulk_retrieval 7500 \<rparr>)"
    by (simp add: confluence_client_def bulk_connector_def)
  have q: "base_cql_page_query ?self @ cql_label_filter ?self = ''type=page''"
    by (simp add: bulk_connector_def example_connector_def)
  have "retrieve_all_slim_documents example_env ?self None None (Some stop_second)
          = ([Emit (take 5000 es1), ShouldStop False, Progress ''retrieve_all_slim_documents'' 1,
              Emit (take 5000 (drop 5000 es1 @ es2)), ShouldStop True],
             Inl (RuntimeError ''retrieve_all_slim_documents: Stop signal detected''))"
    unfolding retrieve_all_slim_documents_def Let_def c q
    by (simp add: for_in_def bulk_retrieval_def gen_bind_def gen_return_def
          slim_page_body_entries_eq [OF es1(1)] slim_page_body_entries_eq [OF es2(1)]
          es1(2) es2(2) SLIM_DOC_BATCH_SIZE_def stop_second_def)
  with es1(2) es2(2) show ?thesis by simp
qed

theorem slim_stop_checks_witness:
  "length (fst (retrieve_all_slim_documents example_env (bulk_connector 7500) None None
                  (Some stop_second))) = 5
   \<and> checked_slices stop_second 0
        (take 3 (fst (retrieve_all_slim_documents example_env (bulk_connector 7500) None None
                        (Some stop_second))))
   \<and> drop 4 (fst (retrieve_all_slim_documents example_env (bulk_connector 7500) None None
                     (Some stop_second))) = [ShouldStop True]
   \<and> snd (retrieve_all_slim_documents example_env (bulk_connector 7500) None None
             (Some stop_second))
       = Inl (RuntimeError ''retrieve_all_slim_documents: Stop signal detected'')"
proof -
  let ?R = "retrieve_all_slim_documents example_env (bulk_connector 7500) None None
              (Some stop_second)"
  from bulk_fetch_stopped obtain b1 b2 where
    R: "fst ?R = [Emit b1, ShouldStop False, Progress ''retrieve_all_slim_documents'' 1,
                  Emit b2, ShouldStop True]"
       "snd ?R = Inl (RuntimeError ''retrieve_all_slim_documents: Stop signal detected'')"
    by auto
  have run: "?R = (fst ?R, snd ?R)" by simp
  from slim_stop_checks [OF run] R
  obtain pre b where
    p: "[Emit b1, ShouldStop False, Progress ''retrieve_all_slim_documents'' 1,
         Emit b2, ShouldStop True] = pre @ [Emit b, ShouldStop True]"
       "checked_slices stop_second 0 pre"
    by auto
  from p(1) have "length pre = 3"
    using arg_cong [OF p(1), of length] by simp
  with p(1) have "pre = take 3 (fst ?R)"
    using arg_cong [OF p(1), of "take 3"] R(1) by simp
  with p(2) R show ?thesis by simp
qed

text \<open>
  The claim as first stated fails on a wiki of three pages with a heartbeat that always
  answers to stop: the accumulated list never exceeds 5000 entries, so no check is made
  while the three pages are processed and the fetch completes with its single emission.
\<close>

theorem slim_no_check_per_page:
  "slim_page_records example_connector
     = [example_page ''1'', example_page ''2'', example_page ''3'']
   \<and> always_stop 0
   \<and> retrieve_all_slim_documents example_env example_connector None None (Some always_stop)
       = ([Emit (slim_entries example_env example_connector
                   (slim_page_records example_connector))], Inr ())"
  by code_simp

end
